theory Spec2Isabelle
  imports Complex_Main
begin

section \<open>Price tracker: detection engine and tracking scheduler\<close>

text \<open>
  A shallow embedding of \<^verbatim>\<open>src/main.py\<close> (class \<^verbatim>\<open>PriceTracker\<close>): the price parser,
  the static and the rendered extractor, the detection orchestrator \<^verbatim>\<open>get_price\<close>, the
  store operations \<^verbatim>\<open>add_product\<close> and \<^verbatim>\<open>delete_product\<close>, the check cycle
  \<^verbatim>\<open>check_all_prices\<close> and the scheduler \<^verbatim>\<open>start_tracking\<close>/\<^verbatim>\<open>tracking_loop\<close>.

  Conventions of the embedding.
  \<^item> A Python \<^verbatim>\<open>str\<close> is a \<open>string\<close>; every character is a code point below 256, and
    the character classes of Python (\<^verbatim>\<open>\d\<close>, \<^verbatim>\<open>str.isspace\<close>) are the ones of that range.
  \<^item> A Python \<^verbatim>\<open>float\<close> that holds a price is the rational number its decimal text
    denotes: rounding to binary64, overflow to \<^verbatim>\<open>inf\<close> and underflow to \<^verbatim>\<open>0.0\<close> are
    outside the model.
  \<^item> \<^verbatim>\<open>None\<close> is \<open>None\<close>; a raised exception is \<open>Inl e\<close>.
  \<^item> The network, the browser, the regular-expression engine and the clock are
    parameters (record \<open>world\<close>): the code is verified for every behaviour of them.
\<close>

subsection \<open>Characters and Python's string helpers\<close>

definition is_digit :: "char \<Rightarrow> bool" where
  "is_digit c = (c \<in> set ''0123456789'')"

text \<open>\<^verbatim>\<open>str.isspace\<close> on the code points below 256: TAB to CR, FS to US, space, NEL, NBSP.\<close>

definition is_space :: "char \<Rightarrow> bool" where
  "is_space c = (of_char c \<in> set [9, 10, 11, 12, 13, 28, 29, 30, 31, 32, 133, 160 :: nat])"

text \<open>\<^verbatim>\<open>str.strip()\<close>: leading and trailing whitespace removed.\<close>

definition strip :: "string \<Rightarrow> string" where
  "strip s = rev (dropWhile is_space (rev (dropWhile is_space s)))"

text \<open>The value of a decimal digit: its code point less the one of \<^verbatim>\<open>0\<close>.\<close>

definition digit_val :: "char \<Rightarrow> nat" where
  "digit_val c = of_char c - 48"

text \<open>The value of a run of decimal digits, most significant first.\<close>

definition digits_val :: "string \<Rightarrow> nat" where
  "digits_val ds = foldl (\<lambda>a c. 10 * a + digit_val c) 0 ds"

text \<open>
  The blanks \<^verbatim>\<open>int\<close> skips at both ends of its text: TAB to CR, space, NEL and NBSP.
  Unlike \<^verbatim>\<open>str.strip\<close> it does not skip FS to US.
\<close>

definition is_int_blank :: "char \<Rightarrow> bool" where
  "is_int_blank c = (of_char c \<in> set [9, 10, 11, 12, 13, 32, 133, 160 :: nat])"

definition int_strip :: "string \<Rightarrow> string" where
  "int_strip s = rev (dropWhile is_int_blank (rev (dropWhile is_int_blank s)))"

text \<open>
  The digits of an integer literal: a non-empty run of digits in which single
  underscores may separate digits.
\<close>

fun int_body_ok :: "string \<Rightarrow> bool" where
  "int_body_ok [] = False"
| "int_body_ok [c] = is_digit c"
| "int_body_ok (c # c' # cs) =
     (is_digit c \<and> (if c' = CHR ''_'' then int_body_ok cs else int_body_ok (c' # cs)))"

text \<open>
  \<^verbatim>\<open>int(s)\<close> on a text: the blanks at both ends are skipped, one sign is allowed, the
  rest must be the digits of a literal, and these must not be more than 4300 (the
  limit of \<^verbatim>\<open>sys.get_int_max_str_digits()\<close>, which the program leaves at its default).
  \<open>None\<close> stands for \<^verbatim>\<open>ValueError\<close>.
\<close>

definition py_int :: "string \<Rightarrow> int option" where
  "py_int s =
     (let t = int_strip s;
          neg = (t \<noteq> [] \<and> hd t = CHR ''-'');
          body = (if t \<noteq> [] \<and> (hd t = CHR ''-'' \<or> hd t = CHR ''+'') then tl t else t);
          ds = filter (\<lambda>c. c \<noteq> CHR ''_'') body
      in if int_body_ok body \<and> length ds \<le> 4300
         then Some ((if neg then - 1 else 1) * int (digits_val ds))
         else None)"

text \<open>
  The decimal text of an integer, as \<^verbatim>\<open>str\<close> and SQLite's conversion of an integer to
  text write it: no sign for a non-negative number, no leading zeros.
\<close>

function decimal :: "nat \<Rightarrow> string" where
  "decimal n =
     (if n < 10 then [''0123456789'' ! n]
      else decimal (n div 10) @ [''0123456789'' ! (n mod 10)])"
  by pat_completeness auto
termination
  by (relation "measure (\<lambda>n. n)") auto

declare decimal.simps [simp del]

definition int_text :: "int \<Rightarrow> string" where
  "int_text i = (if i < 0 then CHR ''-'' # decimal (nat (- i)) else decimal (nat i))"

subsection \<open>Price parser (\<^verbatim>\<open>parse_price_text\<close>, lines 411-427)\<close>

text \<open>
  \<^verbatim>\<open>re.sub(r'[^\d.,]', '', s)\<close> deletes every character that is not a digit, a period
  or a comma; \<^verbatim>\<open>re.sub(r',', '', s)\<close> deletes every comma.
\<close>

definition re_sub_non_price :: "string \<Rightarrow> string" where
  "re_sub_non_price s = filter (\<lambda>c. is_digit c \<or> c = CHR ''.'' \<or> c = CHR '','') s"

definition re_sub_comma :: "string \<Rightarrow> string" where
  "re_sub_comma s = filter (\<lambda>c. c \<noteq> CHR '','') s"

text \<open>
  \<^verbatim>\<open>float(s)\<close> on the strings that reach it here, which consist of digits and periods
  only (no sign, exponent, underscore or blank survives the two substitutions). Python
  accepts \<^verbatim>\<open>12\<close>, \<^verbatim>\<open>12.\<close>, \<^verbatim>\<open>12.5\<close> and \<^verbatim>\<open>.5\<close>, and raises \<^verbatim>\<open>ValueError\<close> (here \<open>None\<close>)
  on the empty string, on a lone period and on a second period.
\<close>

definition py_float :: "string \<Rightarrow> rat option" where
  "py_float s =
     (let ip = takeWhile is_digit s; rest = dropWhile is_digit s in
      case rest of
        [] \<Rightarrow> if ip = [] then None else Some (of_nat (digits_val ip))
      | c # fp \<Rightarrow>
          if c = CHR ''.'' \<and> list_all is_digit fp \<and> \<not> (ip = [] \<and> fp = [])
          then Some (of_nat (digits_val ip) + of_nat (digits_val fp) / 10 ^ length fp)
          else None)"

definition parse_price_text :: "string \<Rightarrow> rat option" where
  "parse_price_text text =
     (if text = [] then None
      else
        let text1 = re_sub_non_price (strip text);
            text2 = re_sub_comma text1
        in if CHR ''.'' \<in> set text2 then py_float text2 else py_float text2)"

text \<open>
  The parser as the specification words it: strip every character that is not a digit,
  a period or a comma, then strip all commas, then parse the rest as a decimal; absent
  on empty input or parse failure.
\<close>

definition spec_parsePrice :: "string \<Rightarrow> rat option" where
  "spec_parsePrice t =
     (if t = [] then None
      else py_float
             (filter (\<lambda>c. c \<noteq> CHR '','')
                (filter (\<lambda>c. is_digit c \<or> c = CHR ''.'' \<or> c = CHR '','') t)))"

text \<open>Python's truth value of an optional float: \<^verbatim>\<open>None\<close> and \<^verbatim>\<open>0.0\<close> are false.\<close>

definition truthy :: "rat option \<Rightarrow> bool" where
  "truthy p = (case p of None \<Rightarrow> False | Some v \<Rightarrow> v \<noteq> 0)"

subsection \<open>The outside world\<close>

datatype py_exception =
    RequestException
  | HTTPError
  | SelectorSyntaxError
  | PlaywrightError
  | ValueError
  | IntegrityError
  | OperationalError
  | OverflowError

text \<open>
  The regular expressions of \<^verbatim>\<open>price_patterns\<close> (lines 321-327), in the order of the list:
  \<^verbatim>\<open>\$[\d,]+\.?\d*\<close>, \<^verbatim>\<open>USD\s*[\d,]+\.?\d*\<close>, \<^verbatim>\<open>[\d,]+\.?\d*\s*USD\<close>,
  \<^verbatim>\<open>Price:\s*\$?[\d,]+\.?\d*\<close> and \<^verbatim>\<open>[\d,]+\.?\d*\<close>.
\<close>

datatype price_pattern =
    DollarPrefixed
  | UsdPrefixed
  | UsdSuffixed
  | PriceLabelled
  | BareNumber

definition price_patterns :: "price_pattern list" where
  "price_patterns = [DollarPrefixed, UsdPrefixed, UsdSuffixed, PriceLabelled, BareNumber]"

text \<open>
  A parsed document: \<open>select sel\<close> is \<^verbatim>\<open>[e.get_text() for e in soup.select(sel)]\<close>, in
  document order, or the exception \<^verbatim>\<open>soup.select\<close> raises; \<open>get_text\<close> is
  \<^verbatim>\<open>soup.get_text()\<close>.
\<close>

record soup =
  select :: "string \<Rightarrow> py_exception + string list"
  get_text :: string

text \<open>
  A rendered page: \<open>query_selector sel\<close> is the \<^verbatim>\<open>inner_text()\<close> of the first element
  matching \<open>sel\<close>, \<open>None\<close> when no element matches, or the exception either call raises.
\<close>

record page =
  query_selector :: "string \<Rightarrow> py_exception + string option"

text \<open>
  \<open>requests_get url\<close> stands for lines 303-306 (request with a 10 s timeout,
  \<^verbatim>\<open>raise_for_status\<close>, parse); \<open>page_goto url\<close> for lines 365-372 (launch the browser,
  open a page, navigate until the network is idle); \<open>re_findall\<close> for \<^verbatim>\<open>re.findall\<close>;
  \<open>datetime_now i\<close> is the clock reading while the \<open>i\<close>-th product of a cycle is written.
\<close>

record world =
  requests_get :: "string \<Rightarrow> py_exception + soup"
  re_findall :: "price_pattern \<Rightarrow> string \<Rightarrow> string list"
  page_goto :: "string \<Rightarrow> py_exception + page"
  datetime_now :: "nat \<Rightarrow> nat"

subsection \<open>Static extractor (\<^verbatim>\<open>extract_price_from_soup\<close>, lines 319-360)\<close>

text \<open>
  The inner loop over the matched elements: the first text whose parse is true in
  Python's sense (present and not zero) is returned.
\<close>

fun first_price :: "string list \<Rightarrow> rat option" where
  "first_price [] = None"
| "first_price (t # ts) =
     (let price = parse_price_text t in if truthy price then price else first_price ts)"

text \<open>The inner loop over the regular-expression matches: \<^verbatim>\<open>if price and price > 0\<close>.\<close>

fun first_positive_price :: "string list \<Rightarrow> rat option" where
  "first_positive_price [] = None"
| "first_positive_price (m # ms) =
     (case parse_price_text m of
        None \<Rightarrow> first_positive_price ms
      | Some v \<Rightarrow> if v \<noteq> 0 \<and> 0 < v then Some v else first_positive_price ms)"

definition common_selectors :: "string list" where
  "common_selectors =
     [''.price'', ''#price'', ''.product-price'', ''.current-price'',
      ''[data-price]'', ''.price-current'', ''.price-now'',
      ''.offer-price'', ''.sale-price'', ''.final-price'']"

text \<open>A loop over selectors; an exception of \<^verbatim>\<open>soup.select\<close> leaves the function.\<close>

fun try_selectors :: "soup \<Rightarrow> string list \<Rightarrow> py_exception + rat option" where
  "try_selectors sp [] = Inr None"
| "try_selectors sp (sel # sels) =
     (case select sp sel of
        Inl e \<Rightarrow> Inl e
      | Inr elements \<Rightarrow>
          (case first_price elements of
             Some v \<Rightarrow> Inr (Some v)
           | None \<Rightarrow> try_selectors sp sels))"

fun try_patterns :: "world \<Rightarrow> string \<Rightarrow> price_pattern list \<Rightarrow> rat option" where
  "try_patterns w text [] = None"
| "try_patterns w text (pat # pats) =
     (case first_positive_price (re_findall w pat text) of
        Some v \<Rightarrow> Some v
      | None \<Rightarrow> try_patterns w text pats)"

text \<open>\<^verbatim>\<open>if selector:\<close> holds for a selector that is neither \<^verbatim>\<open>None\<close> nor empty.\<close>

definition custom_selector :: "string option \<Rightarrow> string list" where
  "custom_selector selector =
     (case selector of None \<Rightarrow> [] | Some sel \<Rightarrow> if sel = [] then [] else [sel])"

definition extract_price_from_soup ::
  "world \<Rightarrow> soup \<Rightarrow> string option \<Rightarrow> py_exception + rat option" where
  "extract_price_from_soup w sp selector =
     (case try_selectors sp (custom_selector selector) of
        Inl e \<Rightarrow> Inl e
      | Inr (Some v) \<Rightarrow> Inr (Some v)
      | Inr None \<Rightarrow>
          (case try_selectors sp common_selectors of
             Inl e \<Rightarrow> Inl e
           | Inr (Some v) \<Rightarrow> Inr (Some v)
           | Inr None \<Rightarrow> Inr (try_patterns w (get_text sp) price_patterns)))"

subsection \<open>Rendered extractor (\<^verbatim>\<open>get_price_with_playwright\<close>, lines 362-409)\<close>

text \<open>
  One probe of the page (lines 375-384 and 393-402): any exception is swallowed, and a
  missing element, an unparsable text or a zero all mean "no price here".
\<close>

definition probe :: "page \<Rightarrow> string \<Rightarrow> rat option" where
  "probe pg sel =
     (case query_selector pg sel of
        Inl e \<Rightarrow> None
      | Inr None \<Rightarrow> None
      | Inr (Some text) \<Rightarrow>
          (let price = parse_price_text text in if truthy price then price else None))"

fun probe_all :: "page \<Rightarrow> string list \<Rightarrow> rat option" where
  "probe_all pg [] = None"
| "probe_all pg (sel # sels) =
     (case probe pg sel of Some v \<Rightarrow> Some v | None \<Rightarrow> probe_all pg sels)"

definition playwright_selectors :: "string list" where
  "playwright_selectors =
     [''.price'', ''#price'', ''.product-price'', ''.current-price'',
      ''[data-price]'', ''.price-current'', ''.price-now'']"

definition get_price_with_playwright :: "world \<Rightarrow> string \<Rightarrow> string option \<Rightarrow> rat option" where
  "get_price_with_playwright w url selector =
     (case page_goto w url of
        Inl e \<Rightarrow> None
      | Inr pg \<Rightarrow>
          (case probe_all pg (custom_selector selector) of
             Some v \<Rightarrow> Some v
           | None \<Rightarrow> probe_all pg playwright_selectors))"

subsection \<open>Detection orchestrator (\<^verbatim>\<open>get_price\<close>, lines 291-317)\<close>

text \<open>The calls \<^verbatim>\<open>get_price\<close> makes to the two extractors, in the order made.\<close>

datatype call =
    StaticFetch string
  | RenderedCall string "string option"

text \<open>
  Lines 295-307, the static path: fetch the page, then search the parsed document. It
  raises what the fetch raises (network failure, timeout, a status that is not 2xx) and
  what the search raises.
\<close>

definition static_extractor ::
  "world \<Rightarrow> string \<Rightarrow> string option \<Rightarrow> py_exception + rat option" where
  "static_extractor w url selector =
     (case requests_get w url of
        Inl e \<Rightarrow> Inl e
      | Inr sp \<Rightarrow> extract_price_from_soup w sp selector)"

text \<open>
  The body of the \<^verbatim>\<open>try\<close> block: it raises what the static path raises. The second
  component is the list of calls made up to the return or the raise.
\<close>

definition get_price_body ::
  "world \<Rightarrow> string \<Rightarrow> string option \<Rightarrow> (py_exception + rat option) \<times> call list" where
  "get_price_body w url selector =
     (case static_extractor w url selector of
        Inl e \<Rightarrow> (Inl e, [StaticFetch url])
      | Inr price \<Rightarrow>
          if truthy price then (Inr price, [StaticFetch url])
          else (Inr (get_price_with_playwright w url selector),
                [StaticFetch url, RenderedCall url selector]))"

text \<open>\<^verbatim>\<open>except Exception\<close>: print and return \<^verbatim>\<open>None\<close>.\<close>

definition get_price :: "world \<Rightarrow> string \<Rightarrow> string option \<Rightarrow> rat option \<times> call list" where
  "get_price w url selector =
     (case get_price_body w url selector of
        (Inl e, calls) \<Rightarrow> (None, calls)
      | (Inr price, calls) \<Rightarrow> (price, calls))"

subsection \<open>The store (\<^verbatim>\<open>init_database\<close>, lines 38-70)\<close>

text \<open>
  A row of table \<^verbatim>\<open>products\<close>. Column \<^verbatim>\<open>id\<close> is \<open>prod_id\<close>; \<^verbatim>\<open>active\<close> is the integer
  the table stores (default 1, soft-deleted 0); timestamps are abstract clock readings.
\<close>

record product =
  prod_id :: nat
  name :: string
  url :: string
  target_price :: "rat option"
  current_price :: "rat option"
  last_checked :: "nat option"
  created_at :: nat
  selector :: "string option"
  active :: int

text \<open>A row of table \<^verbatim>\<open>price_history\<close>; column \<^verbatim>\<open>id\<close> is \<open>hist_id\<close>.\<close>

record history_row =
  hist_id :: nat
  product_id :: nat
  price :: rat
  timestamp :: nat

text \<open>
  Both tables in insertion order, with the \<^verbatim>\<open>AUTOINCREMENT\<close> counters of the two
  primary keys.
\<close>

record database =
  products :: "product list"
  price_history :: "history_row list"
  next_product_id :: nat
  next_history_id :: nat

definition init_database :: database where
  "init_database =
     \<lparr>products = [], price_history = [], next_product_id = 1, next_history_id = 1\<rparr>"

text \<open>
  \<^verbatim>\<open>INSERT INTO products (name, url, target_price, selector)\<close>. Column \<^verbatim>\<open>url\<close> is declared
  \<^verbatim>\<open>TEXT NOT NULL UNIQUE\<close> (line 48): the constraint ranges over every row of the table,
  whatever its \<^verbatim>\<open>active\<close> column holds, and its violation is \<^verbatim>\<open>sqlite3.IntegrityError\<close>.
\<close>

definition sql_insert_product ::
  "database \<Rightarrow> string \<Rightarrow> string \<Rightarrow> rat option \<Rightarrow> string \<Rightarrow> nat \<Rightarrow> py_exception + database" where
  "sql_insert_product d nm u target sel now =
     (if list_ex (\<lambda>p. url p = u) (products d) then Inl IntegrityError
      else Inr (d\<lparr>products := products d @
                    [\<lparr>prod_id = next_product_id d, name = nm, url = u,
                      target_price = target, current_price = None, last_checked = None,
                      created_at = now, selector = Some sel, active = 1\<rparr>],
                  next_product_id := Suc (next_product_id d)\<rparr>))"

subsection \<open>Adding a product (\<^verbatim>\<open>add_product\<close>, lines 225-264)\<close>

text \<open>What the user is told: the four message boxes of the function.\<close>

datatype add_outcome =
    MissingNameOrUrl
  | InvalidTargetPrice
  | ProductAdded
  | UrlAlreadyTracked

text \<open>
  The four entries are the texts of the form. \<open>builtin_float\<close> is Python's \<^verbatim>\<open>float\<close> on an
  arbitrary text (\<open>None\<close> for \<^verbatim>\<open>ValueError\<close>), \<open>now\<close> the time of the insertion.
\<close>

definition add_product ::
  "(string \<Rightarrow> rat option) \<Rightarrow> nat \<Rightarrow> database \<Rightarrow> string \<Rightarrow> string \<Rightarrow> string \<Rightarrow> string
     \<Rightarrow> add_outcome \<times> database" where
  "add_product builtin_float now d name_entry url_entry target_price_entry selector_entry =
     (let nm = strip name_entry; u = strip url_entry;
          tp = strip target_price_entry; sel = strip selector_entry
      in if nm = [] \<or> u = [] then (MissingNameOrUrl, d)
         else
           case (if tp = [] then Some None else map_option Some (builtin_float tp)) of
             None \<Rightarrow> (InvalidTargetPrice, d)
           | Some target \<Rightarrow>
               (case sql_insert_product d nm u target sel now of
                  Inl e \<Rightarrow> (UrlAlreadyTracked, d)
                | Inr d' \<Rightarrow> (ProductAdded, d')))"

subsection \<open>Soft delete (\<^verbatim>\<open>delete_product\<close>, lines 559-577)\<close>

text \<open>
  A value bound to the \<^verbatim>\<open>?\<close> of an SQL statement: a Python \<^verbatim>\<open>int\<close> or a Python \<^verbatim>\<open>str\<close>.
\<close>

datatype sql_param =
    IntParam int
  | TextParam string

text \<open>
  What \<^verbatim>\<open>self.product_tree.item(...)['values'][0]\<close> is for a cell holding the text
  \<open>cell\<close>: the table widget passes every cell through \<^verbatim>\<open>ttk._convert_stringval\<close>, which
  returns \<^verbatim>\<open>int(cell)\<close> where \<^verbatim>\<open>int\<close> accepts the text and the text itself otherwise.
\<close>

definition convert_stringval :: "string \<Rightarrow> sql_param" where
  "convert_stringval cell =
     (case py_int cell of Some n \<Rightarrow> IntParam n | None \<Rightarrow> TextParam cell)"

text \<open>
  \<^verbatim>\<open>name = ?\<close> for column \<^verbatim>\<open>name TEXT\<close>: a text parameter is compared as it is; to an
  integer parameter SQLite applies the column's affinity, comparing the name with the
  decimal text of the integer.
\<close>

definition name_equals :: "string \<Rightarrow> sql_param \<Rightarrow> bool" where
  "name_equals nm product_name =
     (case product_name of
        TextParam t \<Rightarrow> nm = t
      | IntParam n \<Rightarrow> nm = int_text n)"

text \<open>\<^verbatim>\<open>UPDATE products SET active = 0 WHERE name = ?\<close>\<close>

definition sql_deactivate_by_name :: "database \<Rightarrow> sql_param \<Rightarrow> database" where
  "sql_deactivate_by_name d product_name =
     d\<lparr>products :=
         map (\<lambda>p. if name_equals (name p) product_name then p\<lparr>active := 0\<rparr> else p)
           (products d)\<rparr>"

datatype delete_outcome =
    NothingSelected
  | NotConfirmed
  | ProductDeleted

text \<open>
  \<open>selection\<close> lists the selected rows of the product table, each given by the text of
  its first cell, which \<^verbatim>\<open>load_products\<close> filled with the product's name; \<open>confirmed\<close>
  is the answer to the yes/no dialog. Binding an integer outside the 64-bit range
  raises \<^verbatim>\<open>OverflowError\<close>, which the function does not catch.
\<close>

definition delete_product ::
  "database \<Rightarrow> string list \<Rightarrow> bool \<Rightarrow> py_exception + delete_outcome \<times> database" where
  "delete_product d selection confirmed =
     (case selection of
        [] \<Rightarrow> Inr (NothingSelected, d)
      | cell # _ \<Rightarrow>
          if confirmed then
            (let product_name = convert_stringval cell in
             case product_name of
               TextParam t \<Rightarrow> Inr (ProductDeleted, sql_deactivate_by_name d product_name)
             | IntParam n \<Rightarrow>
                 if n < - (2 ^ 63) \<or> 2 ^ 63 \<le> n then Inl OverflowError
                 else Inr (ProductDeleted, sql_deactivate_by_name d product_name))
          else Inr (NotConfirmed, d))"

subsection \<open>The check cycle (\<^verbatim>\<open>check_all_prices\<close>, lines 479-516)\<close>

text \<open>The settings of the application and its tracking flag (fields of \<^verbatim>\<open>self\<close>).\<close>

record tracker =
  interval_var :: string
  notify_price_drop :: bool
  notify_target_reached :: bool
  tracking_active :: bool

datatype notification =
    PriceDropAlert string rat
  | TargetReachedAlert string rat

text \<open>\<^verbatim>\<open>UPDATE products SET current_price = ?, last_checked = ? WHERE id = ?\<close>\<close>

definition sql_update_price :: "database \<Rightarrow> rat \<Rightarrow> nat \<Rightarrow> nat \<Rightarrow> database" where
  "sql_update_price d new_price now pid =
     d\<lparr>products :=
         map (\<lambda>p. if prod_id p = pid
                   then p\<lparr>current_price := Some new_price, last_checked := Some now\<rparr>
                   else p) (products d)\<rparr>"

text \<open>\<^verbatim>\<open>INSERT INTO price_history (product_id, price)\<close>; the timestamp is the default.\<close>

definition sql_insert_history :: "database \<Rightarrow> nat \<Rightarrow> rat \<Rightarrow> nat \<Rightarrow> database" where
  "sql_insert_history d pid new_price now =
     d\<lparr>price_history := price_history d @
          [\<lparr>hist_id = next_history_id d, product_id = pid, price = new_price, timestamp = now\<rparr>],
       next_history_id := Suc (next_history_id d)\<rparr>"

text \<open>Lines 506-510: the two notification tests, one after the other.\<close>

definition notify :: "tracker \<Rightarrow> string \<Rightarrow> rat option \<Rightarrow> rat option \<Rightarrow> rat \<Rightarrow> notification list" where
  "notify self nm old_price target new_price =
     (if truthy old_price \<and> (case old_price of Some po \<Rightarrow> new_price < po | None \<Rightarrow> False)
         \<and> notify_price_drop self
      then [PriceDropAlert nm new_price] else []) @
     (if truthy target \<and> (case target of Some t \<Rightarrow> new_price \<le> t | None \<Rightarrow> False)
         \<and> notify_target_reached self
      then [TargetReachedAlert nm new_price] else [])"

text \<open>
  The state of one run: the store, the notifications shown so far and the products whose
  check raised (the lines printed by the handler).
\<close>

record cycle_state =
  db :: database
  alerts :: "notification list"
  skipped :: "(string \<times> py_exception) list"

text \<open>
  The body of the \<^verbatim>\<open>try\<close> block for the \<open>i\<close>-th product \<open>p\<close> of the snapshot. \<open>detect\<close> is
  the detection call; the body raises what it raises.
\<close>

definition check_product ::
  "(string \<Rightarrow> string option \<Rightarrow> py_exception + rat option) \<Rightarrow> tracker \<Rightarrow> (nat \<Rightarrow> nat)
     \<Rightarrow> nat \<Rightarrow> product \<Rightarrow> cycle_state \<Rightarrow> py_exception + cycle_state" where
  "check_product detect self now i p s =
     (case detect (url p) (selector p) of
        Inl e \<Rightarrow> Inl e
      | Inr new_price \<Rightarrow>
          if truthy new_price then
            (case new_price of
               None \<Rightarrow> Inr s
             | Some v \<Rightarrow>
                 Inr (s\<lparr>db := sql_insert_history
                               (sql_update_price (db s) v (now i) (prod_id p))
                               (prod_id p) v (now i),
                        alerts := alerts s @
                               notify self (name p) (current_price p) (target_price p) v\<rparr>))
          else Inr s)"

text \<open>\<^verbatim>\<open>try: ... except Exception as e: print(...)\<close> around the body.\<close>

definition try_check_product ::
  "(string \<Rightarrow> string option \<Rightarrow> py_exception + rat option) \<Rightarrow> tracker \<Rightarrow> (nat \<Rightarrow> nat)
     \<Rightarrow> nat \<Rightarrow> product \<Rightarrow> cycle_state \<Rightarrow> py_exception + cycle_state" where
  "try_check_product detect self now i p s =
     (case check_product detect self now i p s of
        Inl e \<Rightarrow> Inr (s\<lparr>skipped := skipped s @ [(name p, e)]\<rparr>)
      | Inr s' \<Rightarrow> Inr s')"

text \<open>The \<^verbatim>\<open>for\<close> loop over the snapshot; an exception that leaves an iteration ends it.\<close>

fun check_loop ::
  "(string \<Rightarrow> string option \<Rightarrow> py_exception + rat option) \<Rightarrow> tracker \<Rightarrow> (nat \<Rightarrow> nat)
     \<Rightarrow> nat \<Rightarrow> product list \<Rightarrow> cycle_state \<Rightarrow> py_exception + cycle_state" where
  "check_loop detect self now i [] s = Inr s"
| "check_loop detect self now i (p # ps) s =
     (case try_check_product detect self now i p s of
        Inl e \<Rightarrow> Inl e
      | Inr s' \<Rightarrow> check_loop detect self now (Suc i) ps s')"

text \<open>
  The cycle for an arbitrary detection function: the snapshot of the active products is
  taken once, before the loop (line 484).
\<close>

definition check_all_prices_with ::
  "(string \<Rightarrow> string option \<Rightarrow> py_exception + rat option) \<Rightarrow> tracker \<Rightarrow> (nat \<Rightarrow> nat)
     \<Rightarrow> database \<Rightarrow> py_exception + cycle_state" where
  "check_all_prices_with detect self now d =
     check_loop detect self now 0 (filter (\<lambda>p. active p = 1) (products d))
       \<lparr>db = d, alerts = [], skipped = []\<rparr>"

text \<open>
  The detection call of line 489, \<^verbatim>\<open>self.get_price(url, selector)\<close>: it returns, as
  \<^verbatim>\<open>get_price\<close> catches every exception of its body.
\<close>

definition detection :: "world \<Rightarrow> string \<Rightarrow> string option \<Rightarrow> py_exception + rat option" where
  "detection w u sel = Inr (fst (get_price w u sel))"

text \<open>The cycle of the program: detection is \<^verbatim>\<open>self.get_price\<close>.\<close>

definition check_all_prices :: "world \<Rightarrow> tracker \<Rightarrow> database \<Rightarrow> py_exception + cycle_state" where
  "check_all_prices w self d = check_all_prices_with (detection w) self (datetime_now w) d"

subsection \<open>The scheduler (\<^verbatim>\<open>start_tracking\<close>, \<^verbatim>\<open>stop_tracking\<close>, \<^verbatim>\<open>tracking_loop\<close>, lines 522-557)\<close>

datatype start_outcome =
    AlreadyActive
  | TrackingStarted

text \<open>
  \<^verbatim>\<open>start_tracking\<close>: the second component tells whether a thread running
  \<^verbatim>\<open>tracking_loop\<close> was started.
\<close>

definition start_tracking :: "tracker \<Rightarrow> start_outcome \<times> bool \<times> tracker" where
  "start_tracking self =
     (if tracking_active self then (AlreadyActive, False, self)
      else (TrackingStarted, True, self\<lparr>tracking_active := True\<rparr>))"

definition stop_tracking :: "tracker \<Rightarrow> tracker" where
  "stop_tracking self = self\<lparr>tracking_active := False\<rparr>"

text \<open>
  What the loop thread does, one blocking action after the other: a check cycle, or a
  \<^verbatim>\<open>time.sleep\<close> of so many seconds.
\<close>

datatype action =
    Cycle
  | Sleep nat

text \<open>
  What the loop thread observes of the rest of the program, as a function of the number
  of actions it has completed: the value of \<^verbatim>\<open>self.tracking_active\<close> (written by
  \<^verbatim>\<open>start_tracking\<close> and \<^verbatim>\<open>stop_tracking\<close> on the other thread), the text of the interval
  setting, and whether the cycle begun at that point raises (the store is unreachable).
\<close>

record sched_env =
  flag_at :: "nat \<Rightarrow> bool"
  interval_at :: "nat \<Rightarrow> string"
  cycle_raises :: "nat \<Rightarrow> bool"

text \<open>
  Lines 550-553, with \<open>n\<close> iterations left: the flag is read before every one-second
  sleep. The result is the list of actions completed when the \<^verbatim>\<open>for\<close> loop is left.
\<close>

fun wait_interval :: "sched_env \<Rightarrow> action list \<Rightarrow> nat \<Rightarrow> action list" where
  "wait_interval env acts 0 = acts"
| "wait_interval env acts (Suc n) =
     (if \<not> flag_at env (length acts) then acts
      else wait_interval env (acts @ [Sleep 1]) n)"

text \<open>
  One pass through the body of the \<^verbatim>\<open>while\<close> loop (lines 544-557). An exception of the
  cycle or of \<^verbatim>\<open>int(...)\<close> is caught, and the handler sleeps 60 seconds.
  \<^verbatim>\<open>range(interval_minutes * 60)\<close> is empty for a negative interval.
\<close>

definition loop_body :: "sched_env \<Rightarrow> action list \<Rightarrow> action list" where
  "loop_body env acts =
     (if cycle_raises env (length acts) then acts @ [Cycle, Sleep 60]
      else
        case py_int (interval_at env (Suc (length acts))) of
          None \<Rightarrow> acts @ [Cycle, Sleep 60]
        | Some interval_minutes \<Rightarrow>
            wait_interval env (acts @ [Cycle]) (nat (interval_minutes * 60)))"

text \<open>
  \<^verbatim>\<open>while self.tracking_active\<close>. The loop need not end; \<open>None\<close> is the run that never
  returns, \<open>Some acts\<close> the run that returns after the actions \<open>acts\<close>.
\<close>

partial_function (option) tracking_loop :: "sched_env \<Rightarrow> action list \<Rightarrow> action list option" where
  "tracking_loop env acts =
     (if \<not> flag_at env (length acts) then Some acts
      else tracking_loop env (loop_body env acts))"

section \<open>Concrete worlds and stores\<close>

text \<open>A storefront page whose price stands in an element of class \<^verbatim>\<open>price\<close>.\<close>

definition shop_soup :: soup where
  "shop_soup =
     \<lparr>select = (\<lambda>sel. if sel = ''.price'' then Inr [''Now only'', ''$19.99''] else Inr []),
      get_text = ''Widget Now only $19.99''\<rparr>"

text \<open>A page whose markup carries no price before its scripts have run.\<close>

definition blank_soup :: soup where
  "blank_soup = \<lparr>select = (\<lambda>sel. Inr []), get_text = ''Loading''\<rparr>"

text \<open>The same page rendered: the price is in the element with id \<^verbatim>\<open>price\<close>.\<close>

definition rendered_page :: page where
  "rendered_page =
     \<lparr>query_selector = (\<lambda>sel. if sel = ''#price'' then Inr (Some ''USD 5.00'') else Inr None)\<rparr>"

definition static_world :: world where
  "static_world =
     \<lparr>requests_get = (\<lambda>u. Inr shop_soup), re_findall = (\<lambda>pat t. []),
      page_goto = (\<lambda>u. Inr rendered_page), datetime_now = (\<lambda>i. 1000 + i)\<rparr>"

definition script_world :: world where
  "script_world =
     \<lparr>requests_get = (\<lambda>u. Inr blank_soup), re_findall = (\<lambda>pat t. []),
      page_goto = (\<lambda>u. Inr rendered_page), datetime_now = (\<lambda>i. 1000 + i)\<rparr>"

text \<open>The server answers 403 to the plain request; a browser would get the page.\<close>

definition forbidden_world :: world where
  "forbidden_world =
     \<lparr>requests_get = (\<lambda>u. Inl HTTPError), re_findall = (\<lambda>pat t. []),
      page_goto = (\<lambda>u. Inr rendered_page), datetime_now = (\<lambda>i. 1000 + i)\<rparr>"

definition dead_world :: world where
  "dead_world =
     \<lparr>requests_get = (\<lambda>u. Inr blank_soup), re_findall = (\<lambda>pat t. []),
      page_goto = (\<lambda>u. Inl PlaywrightError), datetime_now = (\<lambda>i. 1000 + i)\<rparr>"

text \<open>Settings with both notifications enabled and the default interval.\<close>

definition default_tracker :: tracker where
  "default_tracker =
     \<lparr>interval_var = ''60'', notify_price_drop = True, notify_target_reached = True,
      tracking_active = False\<rparr>"

text \<open>
  A store with two active products, both checked before at price 25, and one earlier
  observation of each.
\<close>

definition product_a :: product where
  "product_a =
     \<lparr>prod_id = 1, name = ''Anvil'', url = ''http://a/anvil'', target_price = Some 20,
      current_price = Some 25, last_checked = Some 7, created_at = 1, selector = Some [],
      active = 1\<rparr>"

definition product_b :: product where
  "product_b =
     \<lparr>prod_id = 2, name = ''Bolt'', url = ''http://b/bolt'', target_price = None,
      current_price = Some 25, last_checked = Some 7, created_at = 2, selector = Some [],
      active = 1\<rparr>"

definition two_products :: database where
  "two_products =
     \<lparr>products = [product_a, product_b],
      price_history =
        [\<lparr>hist_id = 1, product_id = 1, price = 25, timestamp = 7\<rparr>,
         \<lparr>hist_id = 2, product_id = 2, price = 25, timestamp = 7\<rparr>],
      next_product_id = 3, next_history_id = 3\<rparr>"

text \<open>A detection that raises for the first shop and finds 8 at every other address.\<close>

definition flaky_detect :: "string \<Rightarrow> string option \<Rightarrow> py_exception + rat option" where
  "flaky_detect u sel = (if u = ''http://a/anvil'' then Inl RequestException else Inr (Some 8))"

text \<open>A store whose only product has been soft-deleted.\<close>

definition retired_store :: database where
  "retired_store =
     \<lparr>products = [product_a\<lparr>active := 0\<rparr>], price_history = [],
      next_product_id = 2, next_history_id = 1\<rparr>"

text \<open>A store in which two active products carry the same display name.\<close>

definition product_c :: product where
  "product_c =
     \<lparr>prod_id = 3, name = ''Anvil'', url = ''http://c/anvil'', target_price = None,
      current_price = None, last_checked = None, created_at = 3, selector = Some [],
      active = 1\<rparr>"

definition twin_store :: database where
  "twin_store =
     \<lparr>products = [product_a, product_b, product_c], price_history = price_history two_products,
      next_product_id = 4, next_history_id = 3\<rparr>"

text \<open>
  The interval setting holds \<^verbatim>\<open>abc\<close>; tracking is stopped while the loop thread is in
  its fourth action.
\<close>

definition malformed_env :: sched_env where
  "malformed_env =
     \<lparr>flag_at = (\<lambda>k. k < 4), interval_at = (\<lambda>k. ''abc''), cycle_raises = (\<lambda>k. False)\<rparr>"


text \<open>A store with two active products whose names are \<^verbatim>\<open>007\<close> and \<^verbatim>\<open>7\<close>.\<close>

definition product_007 :: product where
  "product_007 =
     \<lparr>prod_id = 1, name = ''007'', url = ''http://q/watch'', target_price = None,
      current_price = None, last_checked = None, created_at = 1, selector = Some [],
      active = 1\<rparr>"

definition product_7 :: product where
  "product_7 =
     \<lparr>prod_id = 2, name = ''7'', url = ''http://q/seven'', target_price = None,
      current_price = None, last_checked = None, created_at = 2, selector = Some [],
      active = 1\<rparr>"

definition agent_store :: database where
  "agent_store =
     \<lparr>products = [product_007, product_7], price_history = [],
      next_product_id = 3, next_history_id = 1\<rparr>"

section \<open>Properties\<close>

subsection \<open>The price parser\<close>

lemma filter_dropWhile_disjoint:
  "(\<And>x. Q x \<Longrightarrow> \<not> P x) \<Longrightarrow> filter P (dropWhile Q xs) = filter P xs"
  by (induction xs) auto

lemma filter_strip:
  assumes "\<And>x. is_space x \<Longrightarrow> \<not> P x"
  shows "filter P (strip s) = filter P s"
proof -
  have "filter P (strip s) = rev (filter P (dropWhile is_space (rev (dropWhile is_space s))))"
    by (simp add: strip_def rev_filter)
  also have "\<dots> = rev (filter P (rev (dropWhile is_space s)))"
    using assms by (simp add: filter_dropWhile_disjoint)
  also have "\<dots> = filter P (dropWhile is_space s)"
    by (simp add: rev_filter)
  also have "\<dots> = filter P s"
    using assms by (simp add: filter_dropWhile_disjoint)
  finally show ?thesis .
qed

lemma space_not_price_char:
  "is_space c \<Longrightarrow> \<not> (is_digit c \<or> c = CHR ''.'' \<or> c = CHR '','')"
  by (auto simp: is_space_def is_digit_def)

lemmas parse_eval =
  parse_price_text_def strip_def is_space_def re_sub_non_price_def re_sub_comma_def
  py_float_def is_digit_def digits_val_def digit_val_def

text \<open>
  Claim C4. For every text, \<^verbatim>\<open>parse_price_text\<close> computes what the specification's
  algorithm computes: every character other than a digit, a period or a comma is
  removed, then every comma, and the rest is parsed as a decimal, with an absent result
  for the empty text and for a text that does not parse. \<^verbatim>\<open>1,234.56\<close> gives 1234.56,
  \<^verbatim>\<open>19.99\<close> gives 19.99, and the empty text, \<^verbatim>\<open>abc\<close> and \<^verbatim>\<open>$\<close> give no price.
\<close>

theorem parse_price_text_refines_spec:
  "parse_price_text t = spec_parsePrice t
   \<and> parse_price_text ''1,234.56'' = Some (123456 / 100)
   \<and> parse_price_text ''19.99'' = Some (1999 / 100)
   \<and> parse_price_text [] = None
   \<and> parse_price_text ''abc'' = None
   \<and> parse_price_text ''$'' = None"
proof -
  have general: "parse_price_text t = spec_parsePrice t"
    by (simp add: parse_price_text_def spec_parsePrice_def re_sub_non_price_def
        re_sub_comma_def filter_strip space_not_price_char)
  have e1: "parse_price_text ''1,234.56'' = Some (123456 / 100)"
    by (simp add: parse_eval)
  have e2: "parse_price_text ''19.99'' = Some (1999 / 100)"
    by (simp add: parse_eval)
  have e3: "parse_price_text [] = None"
    by (simp add: parse_price_text_def)
  have e4: "parse_price_text ''abc'' = None"
    by (simp add: parse_eval)
  have e5: "parse_price_text ''$'' = None"
    by (simp add: parse_eval)
  from general e1 e2 e3 e4 e5 show ?thesis by blast
qed

theorem parse_price_text_refines_spec_witness:
  "parse_price_text ''  $ 2,500.75 each'' = spec_parsePrice ''  $ 2,500.75 each''
   \<and> spec_parsePrice ''  $ 2,500.75 each'' = Some (250075 / 100)"
proof -
  have "spec_parsePrice ''  $ 2,500.75 each'' = Some (250075 / 100)"
    by (simp add: spec_parsePrice_def py_float_def is_digit_def digits_val_def digit_val_def)
  with parse_price_text_refines_spec [of "''  $ 2,500.75 each''"] show ?thesis by simp
qed

subsection \<open>Detected prices are positive\<close>

lemma py_float_nonneg: "py_float s = Some v \<Longrightarrow> 0 \<le> v"
  by (auto simp: py_float_def Let_def split: list.splits if_splits)

lemma parse_price_text_nonneg: "parse_price_text t = Some v \<Longrightarrow> 0 \<le> v"
  by (auto simp: parse_price_text_def Let_def py_float_nonneg split: if_splits)

lemma truthy_parse_pos: "truthy (parse_price_text t) \<Longrightarrow> \<exists>v. parse_price_text t = Some v \<and> 0 < v"
  using parse_price_text_nonneg [of t]
  by (cases "parse_price_text t") (auto simp: truthy_def)

lemma first_price_pos: "first_price ts = Some v \<Longrightarrow> 0 < v"
proof (induction ts)
  case Nil
  then show ?case by simp
next
  case (Cons t ts)
  show ?case
  proof (cases "truthy (parse_price_text t)")
    case True
    with Cons.prems truthy_parse_pos [of t] show ?thesis by (auto simp: Let_def)
  next
    case False
    with Cons show ?thesis by (simp add: Let_def)
  qed
qed

lemma first_positive_price_pos: "first_positive_price ms = Some v \<Longrightarrow> 0 < v"
  by (induction ms) (auto split: option.splits if_splits)

lemma try_selectors_pos: "try_selectors sp sels = Inr (Some v) \<Longrightarrow> 0 < v"
  by (induction sels) (auto split: sum.splits option.splits dest: first_price_pos)

lemma try_patterns_pos: "try_patterns w text pats = Some v \<Longrightarrow> 0 < v"
  by (induction pats) (auto split: option.splits dest: first_positive_price_pos)

lemma extract_price_from_soup_pos:
  "extract_price_from_soup w sp sel = Inr (Some v) \<Longrightarrow> 0 < v"
  by (auto simp: extract_price_from_soup_def split: sum.splits option.splits
      dest: try_selectors_pos try_patterns_pos)

lemma static_extractor_pos: "static_extractor w u sel = Inr (Some v) \<Longrightarrow> 0 < v"
  by (auto simp: static_extractor_def split: sum.splits dest: extract_price_from_soup_pos)

lemma probe_pos: "probe pg sel = Some v \<Longrightarrow> 0 < v"
proof -
  assume a: "probe pg sel = Some v"
  then obtain raw where "truthy (parse_price_text raw)" "parse_price_text raw = Some v"
    by (auto simp: probe_def Let_def split: sum.splits option.splits if_splits)
  with truthy_parse_pos [of raw] show ?thesis by auto
qed

lemma probe_all_pos: "probe_all pg sels = Some v \<Longrightarrow> 0 < v"
  by (induction sels) (auto split: option.splits dest: probe_pos)

lemma get_price_with_playwright_pos:
  "get_price_with_playwright w u sel = Some v \<Longrightarrow> 0 < v"
  by (auto simp: get_price_with_playwright_def split: sum.splits option.splits dest: probe_all_pos)

lemma get_price_cases:
  "get_price w u sel =
     (case static_extractor w u sel of
        Inl e \<Rightarrow> (None, [StaticFetch u])
      | Inr None \<Rightarrow> (get_price_with_playwright w u sel,
                      [StaticFetch u, RenderedCall u sel])
      | Inr (Some v) \<Rightarrow> (Some v, [StaticFetch u]))"
  using static_extractor_pos [of w u sel]
  by (auto simp: get_price_def get_price_body_def truthy_def split: sum.splits option.splits)

lemma get_price_pos: "fst (get_price w u sel) = Some v \<Longrightarrow> 0 < v"
  by (auto simp: get_price_cases split: sum.splits option.splits
      dest: static_extractor_pos get_price_with_playwright_pos)

subsection \<open>The detection orchestrator\<close>

lemmas world_eval =
  static_world_def script_world_def forbidden_world_def dead_world_def shop_soup_def
  blank_soup_def rendered_page_def static_extractor_def extract_price_from_soup_def
  custom_selector_def common_selectors_def playwright_selectors_def price_patterns_def
  get_price_with_playwright_def probe_def truthy_def Let_def

lemma static_world_hit:
  "static_extractor static_world ''http://shop/w'' None = Inr (Some (1999 / 100))"
  by (simp add: world_eval parse_eval)

lemma script_world_miss: "static_extractor script_world ''http://shop/w'' None = Inr None"
  by (simp add: world_eval parse_eval)

lemma script_world_rendered:
  "get_price_with_playwright script_world ''http://shop/w'' None = Some 5"
  by (simp add: world_eval parse_eval)

lemma dead_world_miss: "static_extractor dead_world ''http://shop/w'' None = Inr None"
  by (simp add: world_eval parse_eval)

lemma dead_world_rendered: "get_price_with_playwright dead_world ''http://shop/w'' None = None"
  by (simp add: world_eval)

lemma forbidden_world_fetch: "requests_get forbidden_world ''http://shop/w'' = Inl HTTPError"
  by (simp add: forbidden_world_def)

lemma forbidden_world_rendered:
  "get_price_with_playwright forbidden_world ''http://shop/w'' None = Some 5"
  by (simp add: world_eval parse_eval)

text \<open>
  Claim C1, as stated, fails. In \<open>forbidden_world\<close> the plain request ends in an HTTP
  error and the rendered extractor would find the price 5, yet \<^verbatim>\<open>get_price\<close> returns no
  price and its only call is the static fetch: the handler of line 315 encloses both
  methods, so a fetch error ends the detection.
\<close>

theorem get_price_fetch_error_counterexample:
  "requests_get forbidden_world ''http://shop/w'' = Inl HTTPError
   \<and> get_price_with_playwright forbidden_world ''http://shop/w'' None = Some 5
   \<and> get_price forbidden_world ''http://shop/w'' None = (None, [StaticFetch ''http://shop/w''])"
proof -
  have "get_price forbidden_world ''http://shop/w'' None = (None, [StaticFetch ''http://shop/w''])"
    by (simp add: get_price_def get_price_body_def world_eval)
  with forbidden_world_fetch forbidden_world_rendered show ?thesis by simp
qed

text \<open>
  Claim C1, amended. For every URL and optional selector, when the static fetch fails
  with an error, \<^verbatim>\<open>get_price\<close> catches the error (it is raised inside the \<^verbatim>\<open>try\<close> block and
  not propagated) and returns absent at once: the static fetch is the only call made,
  the rendered extractor is not invoked.
\<close>

theorem get_price_fetch_error_absent:
  assumes "requests_get w u = Inl e"
  shows "get_price_body w u sel = (Inl e, [StaticFetch u])
         \<and> get_price w u sel = (None, [StaticFetch u])"
  using assms by (simp add: get_price_def get_price_body_def static_extractor_def)

theorem get_price_fetch_error_absent_witness:
  "requests_get forbidden_world ''http://shop/w'' = Inl HTTPError
   \<and> get_price_body forbidden_world ''http://shop/w'' (Some ''.cost'')
       = (Inl HTTPError, [StaticFetch ''http://shop/w''])
   \<and> get_price forbidden_world ''http://shop/w'' (Some ''.cost'')
       = (None, [StaticFetch ''http://shop/w''])"
  using get_price_fetch_error_absent [OF forbidden_world_fetch, of "Some ''.cost''"]
    forbidden_world_fetch
  by simp

text \<open>
  Claim C5. For every URL and optional selector: if the static extractor returns a
  present price, \<^verbatim>\<open>get_price\<close> returns that price and the static fetch is its only call
  (the rendered extractor is not invoked); if the static extractor returns absent,
  the rendered extractor is called and \<^verbatim>\<open>get_price\<close> returns its result; and when
  neither yields a price the result is absent.
\<close>

theorem get_price_static_then_rendered:
  "(static_extractor w u sel = Inr (Some v)
      \<longrightarrow> get_price w u sel = (Some v, [StaticFetch u]))
   \<and> (static_extractor w u sel = Inr None
      \<longrightarrow> get_price w u sel
          = (get_price_with_playwright w u sel, [StaticFetch u, RenderedCall u sel]))
   \<and> ((\<forall>v'. static_extractor w u sel \<noteq> Inr (Some v'))
        \<and> get_price_with_playwright w u sel = None
      \<longrightarrow> fst (get_price w u sel) = None)"
proof -
  have hit: "static_extractor w u sel = Inr (Some v)
      \<longrightarrow> get_price w u sel = (Some v, [StaticFetch u])"
    by (simp add: get_price_cases)
  have miss: "static_extractor w u sel = Inr None
      \<longrightarrow> get_price w u sel
          = (get_price_with_playwright w u sel, [StaticFetch u, RenderedCall u sel])"
    by (simp add: get_price_cases)
  have both: "(\<forall>v'. static_extractor w u sel \<noteq> Inr (Some v'))
        \<and> get_price_with_playwright w u sel = None
      \<longrightarrow> fst (get_price w u sel) = None"
    by (auto simp: get_price_cases split: sum.splits option.splits)
  from hit miss both show ?thesis by blast
qed

theorem get_price_static_then_rendered_witness:
  "get_price static_world ''http://shop/w'' None
     = (Some (1999 / 100), [StaticFetch ''http://shop/w''])
   \<and> get_price script_world ''http://shop/w'' None
     = (Some 5, [StaticFetch ''http://shop/w'', RenderedCall ''http://shop/w'' None])
   \<and> fst (get_price dead_world ''http://shop/w'' None) = None"
proof -
  have a: "get_price static_world ''http://shop/w'' None
     = (Some (1999 / 100), [StaticFetch ''http://shop/w''])"
    using get_price_static_then_rendered
      [of static_world "''http://shop/w''" None "1999 / 100"] static_world_hit
    by simp
  have b: "get_price script_world ''http://shop/w'' None
     = (Some 5, [StaticFetch ''http://shop/w'', RenderedCall ''http://shop/w'' None])"
    using get_price_static_then_rendered [of script_world "''http://shop/w''" None]
      script_world_miss script_world_rendered
    by simp
  have c: "fst (get_price dead_world ''http://shop/w'' None) = None"
    using get_price_static_then_rendered [of dead_world "''http://shop/w''" None]
      dead_world_miss dead_world_rendered
    by simp
  from a b c show ?thesis by simp
qed

subsection \<open>The check cycle\<close>

lemma try_check_product_success:
  assumes "detect (url q) (selector q) = Inr (Some v)" and "v \<noteq> 0"
  shows "try_check_product detect self now i q s =
     Inr (s\<lparr>db := sql_insert_history (sql_update_price (db s) v (now i) (prod_id q))
                    (prod_id q) v (now i),
            alerts := alerts s @ notify self (name q) (current_price q) (target_price q) v\<rparr>)"
  using assms by (simp add: try_check_product_def check_product_def truthy_def)

lemma try_check_product_raise:
  assumes "detect (url q) (selector q) = Inl e"
  shows "try_check_product detect self now i q s = Inr (s\<lparr>skipped := skipped s @ [(name q, e)]\<rparr>)"
  using assms by (simp add: try_check_product_def check_product_def)

lemma try_check_product_absent:
  assumes "detect (url q) (selector q) = Inr r" and "\<not> truthy r"
  shows "try_check_product detect self now i q s = Inr s"
  using assms by (simp add: try_check_product_def check_product_def)

lemma try_check_product_cases:
  obtains (success) v where "detect (url q) (selector q) = Inr (Some v)" "v \<noteq> 0"
      "try_check_product detect self now i q s =
         Inr (s\<lparr>db := sql_insert_history (sql_update_price (db s) v (now i) (prod_id q))
                    (prod_id q) v (now i),
            alerts := alerts s @ notify self (name q) (current_price q) (target_price q) v\<rparr>)"
  | (raise) e where "detect (url q) (selector q) = Inl e"
      "try_check_product detect self now i q s = Inr (s\<lparr>skipped := skipped s @ [(name q, e)]\<rparr>)"
  | (absent) r where "detect (url q) (selector q) = Inr r" "\<not> truthy r"
      "try_check_product detect self now i q s = Inr s"
proof (cases "detect (url q) (selector q)")
  case (Inl e)
  then show ?thesis using raise try_check_product_raise by blast
next
  case (Inr r)
  show ?thesis
  proof (cases "truthy r")
    case True
    then obtain v where "r = Some v" "v \<noteq> 0" by (auto simp: truthy_def split: option.splits)
    with Inr show ?thesis using success try_check_product_success by blast
  next
    case False
    with Inr show ?thesis using absent try_check_product_absent by blast
  qed
qed

lemma check_loop_returns: "\<exists>s'. check_loop detect self now i ps s = Inr s'"
proof (induction ps arbitrary: i s)
  case Nil
  show ?case by simp
next
  case (Cons q qs)
  show ?case
    by (cases rule: try_check_product_cases [of detect q self now i s]) (simp_all add: Cons.IH)
qed

lemma check_loop_ids:
  "check_loop detect self now i ps s = Inr s' \<Longrightarrow>
   map prod_id (products (db s')) = map prod_id (products (db s))"
proof (induction ps arbitrary: i s)
  case Nil
  then show ?case by simp
next
  case (Cons q qs)
  show ?case
  proof (cases rule: try_check_product_cases [of detect q self now i s])
    case (success v)
    with Cons.prems Cons.IH [of "Suc i"] show ?thesis
      by (auto simp: sql_insert_history_def sql_update_price_def comp_def)
  next
    case (raise e)
    with Cons.prems Cons.IH [of "Suc i"] show ?thesis by auto
  next
    case (absent r)
    with Cons.prems Cons.IH [of "Suc i"] show ?thesis by auto
  qed
qed

lemma sql_update_price_other:
  "r \<in> set (products d) \<Longrightarrow> prod_id r \<noteq> pid \<Longrightarrow> r \<in> set (products (sql_update_price d v t pid))"
  by (auto simp: sql_update_price_def)

lemma sql_update_price_same:
  "r \<in> set (products d) \<Longrightarrow> prod_id r = pid \<Longrightarrow>
   r\<lparr>current_price := Some v, last_checked := Some t\<rparr> \<in> set (products (sql_update_price d v t pid))"
  by (force simp: sql_update_price_def)

lemma products_sql_insert_history [simp]:
  "products (sql_insert_history d pid v t) = products d"
  by (simp add: sql_insert_history_def)

lemma price_history_sql_update_price [simp]:
  "price_history (sql_update_price d v t pid) = price_history d"
  by (simp add: sql_update_price_def)

lemma price_history_sql_insert_history:
  "price_history (sql_insert_history d pid v t) =
     price_history d @ [\<lparr>hist_id = next_history_id d, product_id = pid, price = v, timestamp = t\<rparr>]"
  by (simp add: sql_insert_history_def)

lemma check_loop_row_kept:
  assumes "check_loop detect self now i ps s = Inr s'"
    and "r \<in> set (products (db s))"
    and "\<And>q v. q \<in> set ps \<Longrightarrow> prod_id q = prod_id r \<Longrightarrow>
           detect (url q) (selector q) = Inr (Some v) \<Longrightarrow> v = 0"
  shows "r \<in> set (products (db s'))"
  using assms
proof (induction ps arbitrary: i s)
  case Nil
  then show ?case by simp
next
  case (Cons q qs)
  have rest: "\<And>q' v. q' \<in> set qs \<Longrightarrow> prod_id q' = prod_id r \<Longrightarrow>
           detect (url q') (selector q') = Inr (Some v) \<Longrightarrow> v = 0"
    using Cons.prems(3) by auto
  show ?case
  proof (cases rule: try_check_product_cases [of detect q self now i s])
    case (success v)
    then have "prod_id q \<noteq> prod_id r" using Cons.prems(3) [of q v] by auto
    with Cons.prems(2) have "r \<in> set (products (sql_insert_history
        (sql_update_price (db s) v (now i) (prod_id q)) (prod_id q) v (now i)))"
      by (simp add: sql_update_price_other)
    with success(3) Cons.prems(1) Cons.IH [OF _ _ rest] show ?thesis by auto
  next
    case (raise e)
    with Cons.prems(1,2) Cons.IH [OF _ _ rest] show ?thesis by auto
  next
    case (absent x)
    with Cons.prems(1,2) Cons.IH [OF _ _ rest] show ?thesis by auto
  qed
qed

lemma check_loop_row_updated:
  assumes "check_loop detect self now i ps s = Inr s'"
    and "distinct (map prod_id ps)"
    and "p \<in> set ps"
    and "r \<in> set (products (db s))"
    and "prod_id r = prod_id p"
    and "detect (url p) (selector p) = Inr (Some v)"
    and "v \<noteq> 0"
  shows "\<exists>k<length ps. ps ! k = p \<and>
           r\<lparr>current_price := Some v, last_checked := Some (now (i + k))\<rparr> \<in> set (products (db s'))"
  using assms(1-4)
proof (induction ps arbitrary: i s)
  case Nil
  then show ?case by simp
next
  case (Cons q qs)
  show ?case
  proof (cases "q = p")
    case True
    let ?s1 = "s\<lparr>db := sql_insert_history (sql_update_price (db s) v (now i) (prod_id p))
                    (prod_id p) v (now i),
            alerts := alerts s @ notify self (name p) (current_price p) (target_price p) v\<rparr>"
    let ?r = "r\<lparr>current_price := Some v, last_checked := Some (now i)\<rparr>"
    have step: "try_check_product detect self now i p s = Inr ?s1"
      using assms(6,7) by (rule try_check_product_success)
    with Cons.prems(1) True have loop: "check_loop detect self now (Suc i) qs ?s1 = Inr s'"
      by simp
    have in1: "?r \<in> set (products (db ?s1))"
      using Cons.prems(4) assms(5) by (simp add: sql_update_price_same)
    have "prod_id q' \<noteq> prod_id ?r" if "q' \<in> set qs" for q'
      using that Cons.prems(2) True assms(5) by (auto simp: image_iff)
    then have "?r \<in> set (products (db s'))"
      using check_loop_row_kept [OF loop in1] by blast
    with True show ?thesis by (intro exI [of _ 0]) simp
  next
    case False
    with Cons.prems(3) have pin: "p \<in> set qs" by simp
    with Cons.prems(2) have ne: "prod_id q \<noteq> prod_id p" by auto
    from Cons.prems(2) have dist: "distinct (map prod_id qs)" by simp
    obtain s1 where step: "try_check_product detect self now i q s = Inr s1"
      and r1: "r \<in> set (products (db s1))"
    proof (cases rule: try_check_product_cases [of detect q self now i s])
      case (success v')
      with Cons.prems(4) ne assms(5) that show ?thesis
        by (simp add: sql_update_price_other)
    next
      case (raise e)
      with Cons.prems(4) that show ?thesis by simp
    next
      case (absent x)
      with Cons.prems(4) that show ?thesis by simp
    qed
    with Cons.prems(1) have loop: "check_loop detect self now (Suc i) qs s1 = Inr s'" by simp
    from Cons.IH [OF loop dist pin r1] obtain k where
      "k < length qs" "qs ! k = p"
      "r\<lparr>current_price := Some v, last_checked := Some (now (Suc i + k))\<rparr> \<in> set (products (db s'))"
      by blast
    then show ?thesis by (intro exI [of _ "Suc k"]) simp
  qed
qed

lemma check_loop_history:
  assumes "check_loop detect self now i ps s = Inr s'"
  shows "\<exists>new. price_history (db s') = price_history (db s) @ new \<and>
           (\<forall>h\<in>set new. \<exists>q\<in>set ps. product_id h = prod_id q \<and>
               detect (url q) (selector q) = Inr (Some (price h)) \<and> price h \<noteq> 0) \<and>
           (\<forall>q\<in>set ps. \<forall>v. detect (url q) (selector q) = Inr (Some v) \<and> v \<noteq> 0 \<longrightarrow>
               (\<exists>h\<in>set new. product_id h = prod_id q \<and> price h = v))"
  using assms
proof (induction ps arbitrary: i s)
  case Nil
  then show ?case by simp
next
  case (Cons q qs)
  show ?case
  proof (cases rule: try_check_product_cases [of detect q self now i s])
    case (success v)
    let ?s1 = "s\<lparr>db := sql_insert_history (sql_update_price (db s) v (now i) (prod_id q))
                    (prod_id q) v (now i),
            alerts := alerts s @ notify self (name q) (current_price q) (target_price q) v\<rparr>"
    let ?h = "\<lparr>hist_id = next_history_id (db s), product_id = prod_id q, price = v,
               timestamp = now i\<rparr>"
    from success Cons.prems have loop: "check_loop detect self now (Suc i) qs ?s1 = Inr s'" by simp
    from Cons.IH [OF loop] obtain new where new:
      "price_history (db s') = price_history (db ?s1) @ new"
      "\<forall>h\<in>set new. \<exists>q\<in>set qs. product_id h = prod_id q \<and>
               detect (url q) (selector q) = Inr (Some (price h)) \<and> price h \<noteq> 0"
      "\<forall>q\<in>set qs. \<forall>v. detect (url q) (selector q) = Inr (Some v) \<and> v \<noteq> 0 \<longrightarrow>
               (\<exists>h\<in>set new. product_id h = prod_id q \<and> price h = v)"
      by blast
    have hist1: "price_history (db ?s1) = price_history (db s) @ [?h]"
      by (simp add: price_history_sql_insert_history sql_update_price_def)
    show ?thesis
    proof (intro exI [of _ "?h # new"] conjI)
      show "price_history (db s') = price_history (db s) @ ?h # new"
        using new(1) hist1 by simp
      show "\<forall>h\<in>set (?h # new). \<exists>q'\<in>set (q # qs). product_id h = prod_id q' \<and>
               detect (url q') (selector q') = Inr (Some (price h)) \<and> price h \<noteq> 0"
        using new(2) success(1,2) by auto
      show "\<forall>q'\<in>set (q # qs). \<forall>v. detect (url q') (selector q') = Inr (Some v) \<and> v \<noteq> 0 \<longrightarrow>
               (\<exists>h\<in>set (?h # new). product_id h = prod_id q' \<and> price h = v)"
        using new(3) success(1,2) by auto
    qed
  next
    case (raise e)
    with Cons.prems have loop:
      "check_loop detect self now (Suc i) qs (s\<lparr>skipped := skipped s @ [(name q, e)]\<rparr>) = Inr s'"
      by simp
    from Cons.IH [OF loop] raise(1) show ?thesis by auto
  next
    case (absent x)
    with Cons.prems have loop: "check_loop detect self now (Suc i) qs s = Inr s'" by simp
    from Cons.IH [OF loop] absent(1,2) show ?thesis by (auto simp: truthy_def)
  qed
qed

lemma active_snapshot_distinct:
  "distinct (map prod_id (products d)) \<Longrightarrow>
   distinct (map prod_id (filter (\<lambda>p. active p = 1) (products d)))"
  by (rule distinct_map_filter)

lemma same_id_same_row:
  assumes "distinct (map prod_id ps)" and "p \<in> set ps" and "q \<in> set ps"
    and "prod_id q = prod_id p"
  shows "q = p"
proof -
  from assms(1) have "inj_on prod_id (set ps)" by (simp add: distinct_map)
  with assms(2-4) show ?thesis by (auto dest: inj_onD)
qed

lemma cycle_failure_isolated:
  assumes dist: "distinct (map prod_id (products d))"
    and loop: "check_loop detect self now 0 (filter (\<lambda>p. active p = 1) (products d))
                 \<lparr>db = d, alerts = [], skipped = []\<rparr> = Inr s'"
    and hist: "price_history (db s') = price_history d @ new"
    and p: "p \<in> set (products d)"
    and no: "\<forall>v. detect (url p) (selector p) = Inr (Some v) \<longrightarrow> v = 0"
  shows "p \<in> set (products (db s')) \<and> (\<forall>h\<in>set new. product_id h \<noteq> prod_id p)"
proof
  let ?ps = "filter (\<lambda>p. active p = 1) (products d)"
  have same: "q = p" if "q \<in> set ?ps" "prod_id q = prod_id p" for q
    using same_id_same_row [OF dist p, of q] that by simp
  have "v = 0" if "q \<in> set ?ps" "prod_id q = prod_id p"
    "detect (url q) (selector q) = Inr (Some v)" for q v
    using same [OF that(1,2)] that(3) no by simp
  then show "p \<in> set (products (db s'))"
    using check_loop_row_kept [OF loop, of p] p by simp
  from check_loop_history [OF loop] obtain new' where
    h': "price_history (db s') = price_history d @ new'"
    and only: "\<forall>h\<in>set new'. \<exists>q\<in>set ?ps. product_id h = prod_id q \<and>
               detect (url q) (selector q) = Inr (Some (price h)) \<and> price h \<noteq> 0"
    by auto
  from hist h' have eq: "new' = new" by simp
  show "\<forall>h\<in>set new. product_id h \<noteq> prod_id p"
  proof
    fix h assume "h \<in> set new"
    with only eq obtain q where q: "q \<in> set ?ps" "product_id h = prod_id q"
      "detect (url q) (selector q) = Inr (Some (price h))" "price h \<noteq> 0"
      by blast
    show "product_id h \<noteq> prod_id p"
    proof
      assume "product_id h = prod_id p"
      with q(1,2) have "q = p" using same [of q] by simp
      with q(3,4) no show False by simp
    qed
  qed
qed

lemma cycle_success_written:
  assumes dist: "distinct (map prod_id (products d))"
    and loop: "check_loop detect self now 0 (filter (\<lambda>p. active p = 1) (products d))
                 \<lparr>db = d, alerts = [], skipped = []\<rparr> = Inr s'"
    and hist: "price_history (db s') = price_history d @ new"
    and p: "p \<in> set (products d)" "active p = 1"
    and v: "detect (url p) (selector p) = Inr (Some v)" "v \<noteq> 0"
  shows "(\<exists>ts. p\<lparr>current_price := Some v, last_checked := Some ts\<rparr> \<in> set (products (db s')))
         \<and> (\<exists>h\<in>set new. product_id h = prod_id p \<and> price h = v)"
proof
  let ?ps = "filter (\<lambda>p. active p = 1) (products d)"
  from p have pin: "p \<in> set ?ps" by simp
  have d': "distinct (map prod_id ?ps)" using dist by (rule active_snapshot_distinct)
  have "p \<in> set (products (db \<lparr>db = d, alerts = [], skipped = []\<rparr>))" using p(1) by simp
  from check_loop_row_updated [OF loop d' pin this refl v]
  show "\<exists>ts. p\<lparr>current_price := Some v, last_checked := Some ts\<rparr> \<in> set (products (db s'))"
    by blast
  from check_loop_history [OF loop] obtain new' where
    h': "price_history (db s') = price_history d @ new'"
    and each: "\<forall>q\<in>set ?ps. \<forall>v. detect (url q) (selector q) = Inr (Some v) \<and> v \<noteq> 0 \<longrightarrow>
               (\<exists>h\<in>set new'. product_id h = prod_id q \<and> price h = v)"
    by auto
  from hist h' have eq: "new' = new" by simp
  from each pin v eq show "\<exists>h\<in>set new. product_id h = prod_id p \<and> price h = v" by blast
qed

lemmas cycle_eval =
  check_all_prices_with_def try_check_product_def check_product_def truthy_def
  sql_update_price_def sql_insert_history_def notify_def two_products_def product_a_def
  product_b_def flaky_detect_def default_tracker_def

lemma two_products_distinct: "distinct (map prod_id (products two_products))"
  by (simp add: two_products_def product_a_def product_b_def)

lemma flaky_cycle:
  "check_all_prices_with flaky_detect default_tracker (\<lambda>i. 100 + i) two_products =
     Inr \<lparr>db = \<lparr>products = [product_a, product_b\<lparr>current_price := Some 8, last_checked := Some 101\<rparr>],
                price_history = price_history two_products @
                  [\<lparr>hist_id = 3, product_id = 2, price = 8, timestamp = 101\<rparr>],
                next_product_id = 3, next_history_id = 4\<rparr>,
          alerts = [PriceDropAlert ''Bolt'' 8],
          skipped = [(''Anvil'', RequestException)]\<rparr>"
  by (simp add: cycle_eval)

text \<open>
  Claim C6. One run of the check cycle processes every active product and completes
  without raising, whatever the detection does for each product. A product whose
  detection raises (or yields no price) keeps its row as it was, prior current price and
  last-checked timestamp included, and no observation is appended for it; a product
  whose detection succeeds has its current price and last-checked timestamp written and
  an observation with that price appended. The rows' ids are the primary key of the
  table, hence distinct.
\<close>

theorem check_cycle_isolates_failures:
  assumes "distinct (map prod_id (products d))"
  shows "\<exists>s' new. check_all_prices_with detect self now d = Inr s'
     \<and> map prod_id (products (db s')) = map prod_id (products d)
     \<and> price_history (db s') = price_history d @ new
     \<and> (\<forall>p\<in>set (products d). active p = 1 \<longrightarrow>
          ((\<forall>v. detect (url p) (selector p) = Inr (Some v) \<longrightarrow> v = 0) \<longrightarrow>
              p \<in> set (products (db s')) \<and> (\<forall>h\<in>set new. product_id h \<noteq> prod_id p))
        \<and> (\<forall>v. detect (url p) (selector p) = Inr (Some v) \<and> v \<noteq> 0 \<longrightarrow>
              (\<exists>ts. p\<lparr>current_price := Some v, last_checked := Some ts\<rparr> \<in> set (products (db s')))
              \<and> (\<exists>h\<in>set new. product_id h = prod_id p \<and> price h = v)))"
proof -
  let ?ps = "filter (\<lambda>p. active p = 1) (products d)"
  let ?s0 = "\<lparr>db = d, alerts = [], skipped = []\<rparr>"
  obtain s' where loop: "check_loop detect self now 0 ?ps ?s0 = Inr s'"
    using check_loop_returns by blast
  from check_loop_history [OF loop] obtain new where
    hist: "price_history (db s') = price_history d @ new"
    by auto
  have ids: "map prod_id (products (db s')) = map prod_id (products d)"
    using check_loop_ids [OF loop] by simp
  have run: "check_all_prices_with detect self now d = Inr s'"
    using loop by (simp add: check_all_prices_with_def)
  have each: "\<forall>p\<in>set (products d). active p = 1 \<longrightarrow>
          ((\<forall>v. detect (url p) (selector p) = Inr (Some v) \<longrightarrow> v = 0) \<longrightarrow>
              p \<in> set (products (db s')) \<and> (\<forall>h\<in>set new. product_id h \<noteq> prod_id p))
        \<and> (\<forall>v. detect (url p) (selector p) = Inr (Some v) \<and> v \<noteq> 0 \<longrightarrow>
              (\<exists>ts. p\<lparr>current_price := Some v, last_checked := Some ts\<rparr> \<in> set (products (db s')))
              \<and> (\<exists>h\<in>set new. product_id h = prod_id p \<and> price h = v))"
  proof (intro ballI impI)
    fix p assume p: "p \<in> set (products d)" "active p = 1"
    show "((\<forall>v. detect (url p) (selector p) = Inr (Some v) \<longrightarrow> v = 0) \<longrightarrow>
              p \<in> set (products (db s')) \<and> (\<forall>h\<in>set new. product_id h \<noteq> prod_id p))
        \<and> (\<forall>v. detect (url p) (selector p) = Inr (Some v) \<and> v \<noteq> 0 \<longrightarrow>
              (\<exists>ts. p\<lparr>current_price := Some v, last_checked := Some ts\<rparr> \<in> set (products (db s')))
              \<and> (\<exists>h\<in>set new. product_id h = prod_id p \<and> price h = v))"
    proof (rule conjI)
      show "(\<forall>v. detect (url p) (selector p) = Inr (Some v) \<longrightarrow> v = 0) \<longrightarrow>
              p \<in> set (products (db s')) \<and> (\<forall>h\<in>set new. product_id h \<noteq> prod_id p)"
      proof
        assume no: "\<forall>v. detect (url p) (selector p) = Inr (Some v) \<longrightarrow> v = 0"
        show "p \<in> set (products (db s')) \<and> (\<forall>h\<in>set new. product_id h \<noteq> prod_id p)"
          by (rule cycle_failure_isolated [OF assms loop hist p(1) no])
      qed
      show "\<forall>v. detect (url p) (selector p) = Inr (Some v) \<and> v \<noteq> 0 \<longrightarrow>
              (\<exists>ts. p\<lparr>current_price := Some v, last_checked := Some ts\<rparr> \<in> set (products (db s')))
              \<and> (\<exists>h\<in>set new. product_id h = prod_id p \<and> price h = v)"
      proof (intro allI impI)
        fix v assume v: "detect (url p) (selector p) = Inr (Some v) \<and> v \<noteq> 0"
        then have v1: "detect (url p) (selector p) = Inr (Some v)" and v2: "v \<noteq> 0"
          by simp_all
        show "(\<exists>ts. p\<lparr>current_price := Some v, last_checked := Some ts\<rparr> \<in> set (products (db s')))
              \<and> (\<exists>h\<in>set new. product_id h = prod_id p \<and> price h = v)"
          by (rule cycle_success_written [OF assms loop hist p v1 v2])
      qed
    qed
  qed
  from run ids hist each show ?thesis by (intro exI [of _ s'] exI [of _ new] conjI)
qed

theorem check_cycle_isolates_failures_witness:
  "distinct (map prod_id (products two_products))
   \<and> (\<exists>s' new.
        check_all_prices_with flaky_detect default_tracker (datetime_now static_world) two_products
          = Inr s'
        \<and> price_history (db s') = price_history two_products @ new
        \<and> flaky_detect (url product_a) (selector product_a) = Inl RequestException
        \<and> product_a \<in> set (products (db s'))
        \<and> list_all (\<lambda>h. product_id h \<noteq> prod_id product_a) new
        \<and> flaky_detect (url product_b) (selector product_b) = Inr (Some 8)
        \<and> (\<exists>ts. product_b\<lparr>current_price := Some 8, last_checked := Some ts\<rparr>
               \<in> set (products (db s')))
        \<and> list_ex (\<lambda>h. product_id h = prod_id product_b \<and> price h = 8) new)"
proof -
  from check_cycle_isolates_failures
    [OF two_products_distinct, of flaky_detect default_tracker "datetime_now static_world"]
  obtain s' new where
    run: "check_all_prices_with flaky_detect default_tracker (datetime_now static_world)
            two_products = Inr s'"
    and hist: "price_history (db s') = price_history two_products @ new"
    and each: "\<forall>p\<in>set (products two_products). active p = 1 \<longrightarrow>
          ((\<forall>v. flaky_detect (url p) (selector p) = Inr (Some v) \<longrightarrow> v = 0) \<longrightarrow>
              p \<in> set (products (db s')) \<and> (\<forall>h\<in>set new. product_id h \<noteq> prod_id p))
        \<and> (\<forall>v. flaky_detect (url p) (selector p) = Inr (Some v) \<and> v \<noteq> 0 \<longrightarrow>
              (\<exists>ts. p\<lparr>current_price := Some v, last_checked := Some ts\<rparr> \<in> set (products (db s')))
              \<and> (\<exists>h\<in>set new. product_id h = prod_id p \<and> price h = v))"
    by blast
  have a_in: "product_a \<in> set (products two_products)" "active product_a = 1"
    by (simp_all add: two_products_def product_a_def)
  have a_fail: "flaky_detect (url product_a) (selector product_a) = Inl RequestException"
    by (simp add: flaky_detect_def product_a_def)
  have b_in: "product_b \<in> set (products two_products)" "active product_b = 1"
    by (simp_all add: two_products_def product_b_def)
  have b_ok: "flaky_detect (url product_b) (selector product_b) = Inr (Some 8)"
    by (simp add: flaky_detect_def product_b_def)
  from each a_in a_fail have a_kept: "product_a \<in> set (products (db s'))"
    and a_hist: "\<forall>h\<in>set new. product_id h \<noteq> prod_id product_a"
    by simp_all
  from bspec [OF each b_in(1)] b_in(2) b_ok
  have b_new: "\<exists>ts. product_b\<lparr>current_price := Some 8, last_checked := Some ts\<rparr>
               \<in> set (products (db s'))"
    and b_hist: "\<exists>h\<in>set new. product_id h = prod_id product_b \<and> price h = 8"
    by simp_all
  from a_hist have a_hist': "list_all (\<lambda>h. product_id h \<noteq> prod_id product_a) new"
    by (simp add: list_all_iff)
  from b_hist have b_hist': "list_ex (\<lambda>h. product_id h = prod_id product_b \<and> price h = 8) new"
    by (simp add: list_ex_iff)
  from run hist a_fail a_kept a_hist' b_ok b_new b_hist' two_products_distinct
  show ?thesis by blast
qed

subsection \<open>Notification policy\<close>

lemma detection_pos: "detection w u sel = Inr (Some v) \<Longrightarrow> 0 < v"
  by (simp add: detection_def get_price_pos)

lemma notify_positive_price:
  assumes "0 < v"
  shows "notify self nm old target v =
     (if (\<exists>po. old = Some po \<and> v < po) \<and> notify_price_drop self
      then [PriceDropAlert nm v] else []) @
     (if (\<exists>t. target = Some t \<and> v \<le> t) \<and> notify_target_reached self
      then [TargetReachedAlert nm v] else [])"
  using assms by (cases old; cases target) (auto simp: notify_def truthy_def)

text \<open>
  Claim C3. For every check of a product whose detection returns the price \<open>p_new\<close>,
  with prior current price \<open>p_old\<close> and target \<open>t\<close> (both optional): the alerts shown are
  a price-drop alert exactly when \<open>p_old\<close> is present, \<open>p_new < p_old\<close> and the price-drop
  setting is enabled, followed by a target-reached alert exactly when \<open>t\<close> is present,
  \<open>p_new \<le> t\<close> and the target-reached setting is enabled. The two tests are independent,
  and both may fire for one observation.
\<close>

theorem notification_policy:
  assumes "fst (get_price w (url p) (selector p)) = Some p_new"
  shows "\<exists>s'. try_check_product (detection w) self now i p s = Inr s'
     \<and> alerts s' = alerts s @
         (if (\<exists>p_old. current_price p = Some p_old \<and> p_new < p_old) \<and> notify_price_drop self
          then [PriceDropAlert (name p) p_new] else []) @
         (if (\<exists>t. target_price p = Some t \<and> p_new \<le> t) \<and> notify_target_reached self
          then [TargetReachedAlert (name p) p_new] else [])"
proof -
  from assms have det: "detection w (url p) (selector p) = Inr (Some p_new)"
    by (simp add: detection_def)
  then have pos: "0 < p_new" by (rule detection_pos)
  then have nz: "p_new \<noteq> 0" by simp
  have step: "try_check_product (detection w) self now i p s =
     Inr (s\<lparr>db := sql_insert_history (sql_update_price (db s) p_new (now i) (prod_id p))
                    (prod_id p) p_new (now i),
            alerts := alerts s @
              notify self (name p) (current_price p) (target_price p) p_new\<rparr>)"
    using det nz by (rule try_check_product_success)
  show ?thesis
    unfolding step notify_positive_price [OF pos] by simp
qed

lemma static_world_anvil:
  "fst (get_price static_world (url product_a) (selector product_a)) = Some (1999 / 100)"
  by (simp add: get_price_def get_price_body_def world_eval parse_eval product_a_def)

theorem notification_policy_witness:
  "fst (get_price static_world (url product_a) (selector product_a)) = Some (1999 / 100)
   \<and> current_price product_a = Some 25 \<and> target_price product_a = Some 20
   \<and> (\<exists>s'. try_check_product (detection static_world) default_tracker (datetime_now static_world)
              0 product_a \<lparr>db = two_products, alerts = [], skipped = []\<rparr> = Inr s'
        \<and> alerts s' = [PriceDropAlert ''Anvil'' (1999 / 100),
                        TargetReachedAlert ''Anvil'' (1999 / 100)])"
proof -
  have cur: "current_price product_a = Some 25" and tgt: "target_price product_a = Some 20"
    and nm: "name product_a = ''Anvil''"
    by (simp_all add: product_a_def)
  from notification_policy [OF static_world_anvil, of default_tracker
      "datetime_now static_world" 0 "\<lparr>db = two_products, alerts = [], skipped = []\<rparr>"]
  obtain s' where
    "try_check_product (detection static_world) default_tracker (datetime_now static_world)
       0 product_a \<lparr>db = two_products, alerts = [], skipped = []\<rparr> = Inr s'"
    "alerts s' = [PriceDropAlert ''Anvil'' (1999 / 100), TargetReachedAlert ''Anvil'' (1999 / 100)]"
    by (auto simp: cur tgt nm default_tracker_def)
  with static_world_anvil cur tgt show ?thesis by blast
qed

subsection \<open>Stored prices\<close>

lemma sql_update_price_current:
  assumes "r' \<in> set (products (sql_update_price d v t pid))"
    and "current_price r' = Some x"
  shows "x = v \<or> (\<exists>r\<in>set (products d). current_price r = Some x)"
  using assms by (auto simp: sql_update_price_def split: if_splits)

lemma check_loop_current_price:
  assumes "check_loop detect self now i ps s = Inr s'"
    and "r' \<in> set (products (db s'))"
    and "current_price r' = Some x"
  shows "(\<exists>r\<in>set (products (db s)). current_price r = Some x)
         \<or> (\<exists>q\<in>set ps. detect (url q) (selector q) = Inr (Some x) \<and> x \<noteq> 0)"
  using assms(1)
proof (induction ps arbitrary: i s)
  case Nil
  with assms(2,3) show ?case by auto
next
  case (Cons q qs)
  show ?case
  proof (cases rule: try_check_product_cases [of detect q self now i s])
    case (success v)
    let ?s1 = "s\<lparr>db := sql_insert_history (sql_update_price (db s) v (now i) (prod_id q))
                    (prod_id q) v (now i),
            alerts := alerts s @ notify self (name q) (current_price q) (target_price q) v\<rparr>"
    from success Cons.prems have loop: "check_loop detect self now (Suc i) qs ?s1 = Inr s'"
      by simp
    from Cons.IH [OF loop] consider
      (old) r where "r \<in> set (products (db ?s1))" "current_price r = Some x"
      | (later) "\<exists>q\<in>set qs. detect (url q) (selector q) = Inr (Some x) \<and> x \<noteq> 0"
      by blast
    then show ?thesis
    proof cases
      case old
      then have "r \<in> set (products (sql_update_price (db s) v (now i) (prod_id q)))"
        by simp
      from sql_update_price_current [OF this old(2)] success(1,2) show ?thesis by auto
    next
      case later
      then show ?thesis by auto
    qed
  next
    case (raise e)
    with Cons.prems have loop:
      "check_loop detect self now (Suc i) qs (s\<lparr>skipped := skipped s @ [(name q, e)]\<rparr>) = Inr s'"
      by simp
    from Cons.IH [OF loop] show ?thesis by auto
  next
    case (absent y)
    with Cons.prems have loop: "check_loop detect self now (Suc i) qs s = Inr s'" by simp
    from Cons.IH [OF loop] show ?thesis by auto
  qed
qed

text \<open>
  Claim C9. A check cycle appends a history row only for an active product whose
  detection returned a present price, and every price it appends is strictly positive;
  so if every stored observation and every stored current price was positive before
  the cycle, it is positive after it.
\<close>

theorem stored_prices_positive:
  "\<exists>s' new. check_all_prices w self d = Inr s'
     \<and> price_history (db s') = price_history d @ new
     \<and> (\<forall>h\<in>set new. 0 < price h
           \<and> (\<exists>p\<in>set (products d). active p = 1 \<and> product_id h = prod_id p
                 \<and> fst (get_price w (url p) (selector p)) = Some (price h)))
     \<and> ((\<forall>h\<in>set (price_history d). 0 < price h)
           \<longrightarrow> (\<forall>h\<in>set (price_history (db s')). 0 < price h))
     \<and> ((\<forall>r\<in>set (products d). \<forall>x. current_price r = Some x \<longrightarrow> 0 < x)
           \<longrightarrow> (\<forall>r\<in>set (products (db s')). \<forall>x. current_price r = Some x \<longrightarrow> 0 < x))"
proof -
  let ?ps = "filter (\<lambda>p. active p = 1) (products d)"
  let ?s0 = "\<lparr>db = d, alerts = [], skipped = []\<rparr>"
  obtain s' where loop: "check_loop (detection w) self (datetime_now w) 0 ?ps ?s0 = Inr s'"
    using check_loop_returns by blast
  then have run: "check_all_prices w self d = Inr s'"
    by (simp add: check_all_prices_def check_all_prices_with_def)
  from check_loop_history [OF loop] obtain new where
    hist: "price_history (db s') = price_history d @ new"
    and only: "\<forall>h\<in>set new. \<exists>q\<in>set ?ps. product_id h = prod_id q \<and>
               detection w (url q) (selector q) = Inr (Some (price h)) \<and> price h \<noteq> 0"
    by auto
  have new_pos: "\<forall>h\<in>set new. 0 < price h
           \<and> (\<exists>p\<in>set (products d). active p = 1 \<and> product_id h = prod_id p
                 \<and> fst (get_price w (url p) (selector p)) = Some (price h))"
  proof
    fix h assume "h \<in> set new"
    with only obtain q where q: "q \<in> set ?ps" "product_id h = prod_id q"
      "detection w (url q) (selector q) = Inr (Some (price h))"
      by blast
    from q(3) have "0 < price h" by (rule detection_pos)
    moreover from q have "q \<in> set (products d) \<and> active q = 1 \<and> product_id h = prod_id q
                 \<and> fst (get_price w (url q) (selector q)) = Some (price h)"
      by (simp add: detection_def)
    ultimately show "0 < price h
           \<and> (\<exists>p\<in>set (products d). active p = 1 \<and> product_id h = prod_id p
                 \<and> fst (get_price w (url p) (selector p)) = Some (price h))"
      by blast
  qed
  have all_hist: "(\<forall>h\<in>set (price_history d). 0 < price h)
           \<longrightarrow> (\<forall>h\<in>set (price_history (db s')). 0 < price h)"
    using hist new_pos by auto
  have all_cur: "(\<forall>r\<in>set (products d). \<forall>x. current_price r = Some x \<longrightarrow> 0 < x)
           \<longrightarrow> (\<forall>r\<in>set (products (db s')). \<forall>x. current_price r = Some x \<longrightarrow> 0 < x)"
  proof (intro impI ballI allI)
    fix r x
    assume inv: "\<forall>r\<in>set (products d). \<forall>x. current_price r = Some x \<longrightarrow> 0 < x"
      and r: "r \<in> set (products (db s'))" "current_price r = Some x"
    from check_loop_current_price [OF loop r] consider
      (old) r0 :: product where "r0 \<in> set (products d)" "current_price r0 = Some x"
      | (detected) q :: product where "detection w (url q) (selector q) = Inr (Some x)"
      by auto
    then show "0 < x"
    proof cases
      case old
      with inv show ?thesis by blast
    next
      case detected
      then show ?thesis by (rule detection_pos)
    qed
  qed
  from run hist new_pos all_hist all_cur show ?thesis
    by (intro exI [of _ s'] exI [of _ new] conjI)
qed

lemma static_world_detection:
  "detection static_world u (Some []) = Inr (Some (1999 / 100))"
  by (simp add: detection_def get_price_def get_price_body_def world_eval parse_eval)

lemma static_world_clock: "datetime_now static_world i = 1000 + i"
  by (simp add: static_world_def)

lemma static_cycle:
  "check_all_prices static_world default_tracker two_products =
     Inr \<lparr>db = \<lparr>products =
                  [product_a\<lparr>current_price := Some (1999 / 100), last_checked := Some 1000\<rparr>,
                   product_b\<lparr>current_price := Some (1999 / 100), last_checked := Some 1001\<rparr>],
                price_history = price_history two_products @
                  [\<lparr>hist_id = 3, product_id = 1, price = 1999 / 100, timestamp = 1000\<rparr>,
                   \<lparr>hist_id = 4, product_id = 2, price = 1999 / 100, timestamp = 1001\<rparr>],
                next_product_id = 3, next_history_id = 5\<rparr>,
          alerts = [PriceDropAlert ''Anvil'' (1999 / 100), TargetReachedAlert ''Anvil'' (1999 / 100),
                    PriceDropAlert ''Bolt'' (1999 / 100)],
          skipped = []\<rparr>"
  by (simp add: check_all_prices_def check_all_prices_with_def try_check_product_def
      check_product_def static_world_detection truthy_def sql_update_price_def
      sql_insert_history_def notify_def two_products_def product_a_def product_b_def
      default_tracker_def static_world_clock)

theorem stored_prices_positive_witness:
  "list_all (\<lambda>h. 0 < price h) (price_history two_products)
   \<and> (\<exists>s' new. check_all_prices static_world default_tracker two_products = Inr s'
        \<and> price_history (db s') = price_history two_products @ new
        \<and> map price new = [1999 / 100, 1999 / 100]
        \<and> list_all (\<lambda>h. 0 < price h) new
        \<and> list_all (\<lambda>h. 0 < price h) (price_history (db s')))"
proof -
  have before: "\<forall>h\<in>set (price_history two_products). 0 < price h"
    by (simp add: two_products_def)
  from stored_prices_positive [of static_world default_tracker two_products]
  obtain s' new where run: "check_all_prices static_world default_tracker two_products = Inr s'"
    and hist: "price_history (db s') = price_history two_products @ new"
    and new_pos: "\<forall>h\<in>set new. 0 < price h"
    and inv: "(\<forall>h\<in>set (price_history two_products). 0 < price h)
           \<longrightarrow> (\<forall>h\<in>set (price_history (db s')). 0 < price h)"
    by blast
  from run have "s' = \<lparr>db = \<lparr>products =
                  [product_a\<lparr>current_price := Some (1999 / 100), last_checked := Some 1000\<rparr>,
                   product_b\<lparr>current_price := Some (1999 / 100), last_checked := Some 1001\<rparr>],
                price_history = price_history two_products @
                  [\<lparr>hist_id = 3, product_id = 1, price = 1999 / 100, timestamp = 1000\<rparr>,
                   \<lparr>hist_id = 4, product_id = 2, price = 1999 / 100, timestamp = 1001\<rparr>],
                next_product_id = 3, next_history_id = 5\<rparr>,
          alerts = [PriceDropAlert ''Anvil'' (1999 / 100), TargetReachedAlert ''Anvil'' (1999 / 100),
                    PriceDropAlert ''Bolt'' (1999 / 100)],
          skipped = []\<rparr>"
    by (simp add: static_cycle)
  with hist have "new = [\<lparr>hist_id = 3, product_id = 1, price = 1999 / 100, timestamp = 1000\<rparr>,
                   \<lparr>hist_id = 4, product_id = 2, price = 1999 / 100, timestamp = 1001\<rparr>]"
    by simp
  then have prices: "map price new = [1999 / 100, 1999 / 100]"
    by simp
  from inv before have after: "list_all (\<lambda>h. 0 < price h) (price_history (db s'))"
    by (simp add: list_all_iff)
  from new_pos have fresh: "list_all (\<lambda>h. 0 < price h) new"
    by (simp add: list_all_iff)
  from before have prior: "list_all (\<lambda>h. 0 < price h) (price_history two_products)"
    by (simp add: list_all_iff)
  show ?thesis
    by (intro conjI exI [of _ s'] exI [of _ new]) (rule prior run hist prices fresh after)+
qed

subsection \<open>Adding a product\<close>

text \<open>
  Claim C2, as stated, fails in its second half. The only product of \<open>retired_store\<close> is
  deactivated, yet adding a product with its URL is refused with the duplicate-URL
  message and the store is left as it was: the \<^verbatim>\<open>UNIQUE\<close> constraint of line 48 covers
  every row of the table.
\<close>

theorem add_product_deactivated_url_counterexample:
  "map active (products retired_store) = [0]
   \<and> map url (products retired_store) = [''http://a/anvil'']
   \<and> add_product py_float 50 retired_store ''Anvil again'' ''http://a/anvil'' [] []
       = (UrlAlreadyTracked, retired_store)"
  by (simp add: add_product_def sql_insert_product_def retired_store_def product_a_def
      strip_def is_space_def)

text \<open>
  Claim C2, amended. Adding a product (with a name, a URL and a valid or empty target
  price) whose URL equals the URL of any existing row, active or deactivated, fails with
  the duplicate-URL error surfaced to the caller and leaves the store unchanged; adding
  one whose URL equals no existing row's URL succeeds and appends an active row. URL
  uniqueness is enforced over all rows, so the URL of a soft-deleted product is not
  reusable.
\<close>

theorem add_product_url_unique_over_all_rows:
  assumes "strip name_entry \<noteq> []" and "strip url_entry \<noteq> []"
    and "strip target_price_entry \<noteq> [] \<longrightarrow> builtin_float (strip target_price_entry) \<noteq> None"
  shows "if \<exists>p\<in>set (products d). url p = strip url_entry
         then add_product builtin_float now d name_entry url_entry target_price_entry
                selector_entry = (UrlAlreadyTracked, d)
         else \<exists>d'. add_product builtin_float now d name_entry url_entry target_price_entry
                selector_entry = (ProductAdded, d')
              \<and> (\<exists>row. products d' = products d @ [row] \<and> url row = strip url_entry
                    \<and> name row = strip name_entry \<and> active row = 1
                    \<and> prod_id row = next_product_id d)
              \<and> price_history d' = price_history d"
  using assms
  by (auto simp: add_product_def sql_insert_product_def Let_def list_ex_iff
      split: option.splits)

theorem add_product_url_unique_over_all_rows_witness:
  "add_product py_float 50 two_products '' Bolt (new) '' ''http://b/bolt'' ''12.50'' ''.price''
     = (UrlAlreadyTracked, two_products)
   \<and> (\<exists>d'. add_product py_float 50 retired_store ''Crate'' '' http://d/crate '' ''12.50'' []
              = (ProductAdded, d')
        \<and> (\<exists>row. products d' = products retired_store @ [row] \<and> url row = ''http://d/crate''
              \<and> name row = ''Crate'' \<and> active row = 1 \<and> prod_id row = 2)
        \<and> price_history d' = price_history retired_store)"
proof -
  have dup: "add_product py_float 50 two_products '' Bolt (new) '' ''http://b/bolt'' ''12.50''
      ''.price'' = (UrlAlreadyTracked, two_products)"
    using add_product_url_unique_over_all_rows
      [of "'' Bolt (new) ''" "''http://b/bolt''" "''12.50''" py_float two_products 50 "''.price''"]
    by (simp add: strip_def is_space_def py_float_def is_digit_def two_products_def
        product_a_def product_b_def)
  have fresh: "\<exists>d'. add_product py_float 50 retired_store ''Crate'' '' http://d/crate '' ''12.50'' []
              = (ProductAdded, d')
        \<and> (\<exists>row. products d' = products retired_store @ [row] \<and> url row = ''http://d/crate''
              \<and> name row = ''Crate'' \<and> active row = 1 \<and> prod_id row = 2)
        \<and> price_history d' = price_history retired_store"
    using add_product_url_unique_over_all_rows
      [of "''Crate''" "'' http://d/crate ''" "''12.50''" py_float retired_store 50 "[]"]
    by (simp add: strip_def is_space_def py_float_def is_digit_def retired_store_def
        product_a_def)
  from dup fresh show ?thesis by (rule conjI)
qed

subsection \<open>Soft delete\<close>

lemmas int_eval =
  py_int_def int_strip_def is_int_blank_def is_digit_def digits_val_def digit_val_def Let_def

lemma py_int_007: "py_int ''007'' = Some 7"
  by (simp add: int_eval)

lemma py_int_anvil: "py_int ''Anvil'' = None"
  by (simp add: int_eval)

lemma int_text_7: "int_text 7 = ''7''"
  by (simp add: int_text_def decimal.simps)

text \<open>
  For a display name that \<^verbatim>\<open>int\<close> rejects the deletion goes by name: every row with the
  selected name is deactivated and nothing else changes, so two active products that
  share such a name are both deactivated.
\<close>

lemma delete_product_text_name:
  assumes "py_int nm = None"
  shows "delete_product d (nm # rest) True =
     Inr (ProductDeleted,
          d\<lparr>products := map (\<lambda>p. if name p = nm then p\<lparr>active := 0\<rparr> else p) (products d)\<rparr>)"
  using assms
  by (simp add: delete_product_def convert_stringval_def sql_deactivate_by_name_def
      name_equals_def)

lemma delete_product_twins:
  "delete_product twin_store [''Anvil''] True =
     Inr (ProductDeleted,
          twin_store\<lparr>products := [product_a\<lparr>active := 0\<rparr>, product_b, product_c\<lparr>active := 0\<rparr>]\<rparr>)"
  by (simp add: delete_product_text_name [OF py_int_anvil] twin_store_def product_a_def
      product_b_def product_c_def)

text \<open>
  Claim C10 says that deleting a selected product deactivates every row whose name
  equals the selected name and changes nothing else. The code does not do so for a
  name that \<^verbatim>\<open>int\<close> accepts: the table widget hands the name \<^verbatim>\<open>007\<close> back as the integer
  7, and the \<^verbatim>\<open>UPDATE\<close> then matches the rows named \<^verbatim>\<open>7\<close>. In \<open>agent_store\<close>, deleting
  the selected product \<^verbatim>\<open>007\<close> reports success, leaves that product active and
  deactivates the other product, named \<^verbatim>\<open>7\<close>.
\<close>

theorem delete_product_numeric_name_divergence:
  "map name (products agent_store) = [''007'', ''7'']
   \<and> map active (products agent_store) = [1, 1]
   \<and> delete_product agent_store [''007''] True
       = Inr (ProductDeleted, agent_store\<lparr>products := [product_007, product_7\<lparr>active := 0\<rparr>]\<rparr>)"
proof -
  have names: "map name (products agent_store) = [''007'', ''7'']"
    and act: "map active (products agent_store) = [1, 1]"
    by (simp_all add: agent_store_def product_007_def product_7_def)
  have conv: "convert_stringval ''007'' = IntParam 7"
    by (simp add: convert_stringval_def py_int_007)
  have "delete_product agent_store [''007''] True
       = Inr (ProductDeleted, sql_deactivate_by_name agent_store (IntParam 7))"
    by (simp add: delete_product_def conv)
  also have "sql_deactivate_by_name agent_store (IntParam 7)
       = agent_store\<lparr>products := [product_007, product_7\<lparr>active := 0\<rparr>]\<rparr>"
    by (simp add: sql_deactivate_by_name_def name_equals_def int_text_7 agent_store_def
        product_007_def product_7_def)
  finally show ?thesis using names act by simp
qed

subsection \<open>The scheduler\<close>

lemma tracking_loop_stop:
  "\<not> flag_at env (length acts) \<Longrightarrow> tracking_loop env acts = Some acts"
  by (subst tracking_loop.simps) simp

lemma tracking_loop_step:
  "flag_at env (length acts) \<Longrightarrow> tracking_loop env acts = tracking_loop env (loop_body env acts)"
  by (subst tracking_loop.simps) simp





lemma py_int_abc: "py_int ''abc'' = None"
  by (simp add: int_eval)

lemma py_int_separator: "py_int [CHR 0x1C, CHR ''1''] = None"
  by (simp add: int_eval)


lemma loop_body_malformed:
  "py_int (interval_at env (Suc (length acts))) = None \<Longrightarrow>
   loop_body env acts = acts @ [Cycle, Sleep 60]"
  by (simp add: loop_body_def)

text \<open>
  Claim C8, as stated, fails. With the interval text \<^verbatim>\<open>abc\<close>, for which \<^verbatim>\<open>int\<close> raises,
  \<^verbatim>\<open>start_tracking\<close> reports success and starts the thread; the loop then runs a cycle,
  catches the error, sleeps 60 seconds and runs the next cycle, until tracking is
  stopped. No error reaches the caller.
\<close>

theorem malformed_interval_counterexample:
  "py_int ''abc'' = None
   \<and> start_tracking (default_tracker\<lparr>interval_var := ''abc''\<rparr>)
       = (TrackingStarted, True, default_tracker\<lparr>interval_var := ''abc'', tracking_active := True\<rparr>)
   \<and> interval_at malformed_env 1 = ''abc''
   \<and> tracking_loop malformed_env [] = Some [Cycle, Sleep 60, Cycle, Sleep 60]"
proof -
  have start: "start_tracking (default_tracker\<lparr>interval_var := ''abc''\<rparr>)
       = (TrackingStarted, True, default_tracker\<lparr>interval_var := ''abc'', tracking_active := True\<rparr>)"
    by (simp add: start_tracking_def default_tracker_def)
  have bad: "py_int (interval_at malformed_env k) = None" for k
    by (simp add: malformed_env_def py_int_abc)
  have on: "flag_at malformed_env k = (k < 4)" for k
    by (simp add: malformed_env_def)
  have "tracking_loop malformed_env [] = tracking_loop malformed_env [Cycle, Sleep 60]"
    by (simp add: tracking_loop_step on loop_body_malformed bad)
  also have "\<dots> = tracking_loop malformed_env [Cycle, Sleep 60, Cycle, Sleep 60]"
    by (simp add: tracking_loop_step on loop_body_malformed bad)
  also have "\<dots> = Some [Cycle, Sleep 60, Cycle, Sleep 60]"
    by (simp add: tracking_loop_stop on)
  finally have run: "tracking_loop malformed_env [] = Some [Cycle, Sleep 60, Cycle, Sleep 60]" .
  have "interval_at malformed_env 1 = ''abc''" by (simp add: malformed_env_def)
  with py_int_abc start run show ?thesis by simp
qed

text \<open>
  Claim C8, amended. A malformed check-interval text (one \<^verbatim>\<open>int\<close> rejects: no integer
  literal, a blank \<^verbatim>\<open>int\<close> does not skip, more than 4300 digits) is not examined where
  it is supplied: \<^verbatim>\<open>start_tracking\<close> on an inactive tracker starts tracking
  and reports success whatever the text. Inside the running loop the conversion error
  is caught after the cycle: the loop sleeps 60 seconds and goes on with the next pass,
  as long as tracking is active.
\<close>

theorem malformed_interval_absorbed:
  assumes "py_int bad = None"
  shows "(\<not> tracking_active self \<longrightarrow>
            start_tracking (self\<lparr>interval_var := bad\<rparr>)
              = (TrackingStarted, True, self\<lparr>interval_var := bad, tracking_active := True\<rparr>))
         \<and> (flag_at env (length acts) \<and> interval_at env (Suc (length acts)) = bad \<longrightarrow>
            tracking_loop env acts = tracking_loop env (acts @ [Cycle, Sleep 60]))"
proof (rule conjI)
  show "\<not> tracking_active self \<longrightarrow>
            start_tracking (self\<lparr>interval_var := bad\<rparr>)
              = (TrackingStarted, True, self\<lparr>interval_var := bad, tracking_active := True\<rparr>)"
    by (simp add: start_tracking_def)
  show "flag_at env (length acts) \<and> interval_at env (Suc (length acts)) = bad \<longrightarrow>
            tracking_loop env acts = tracking_loop env (acts @ [Cycle, Sleep 60])"
  proof
    assume a: "flag_at env (length acts) \<and> interval_at env (Suc (length acts)) = bad"
    with assms have "loop_body env acts = acts @ [Cycle, Sleep 60]"
      by (simp add: loop_body_malformed)
    with a show "tracking_loop env acts = tracking_loop env (acts @ [Cycle, Sleep 60])"
      by (simp add: tracking_loop_step)
  qed
qed

theorem malformed_interval_absorbed_witness:
  "py_int ''abc'' = None
   \<and> py_int [CHR 0x1C, CHR ''1''] = None
   \<and> tracking_active default_tracker = False
   \<and> start_tracking (default_tracker\<lparr>interval_var := ''abc''\<rparr>)
       = (TrackingStarted, True, default_tracker\<lparr>interval_var := ''abc'', tracking_active := True\<rparr>)
   \<and> flag_at malformed_env (length [Cycle, Sleep 60])
   \<and> tracking_loop malformed_env [Cycle, Sleep 60]
       = tracking_loop malformed_env [Cycle, Sleep 60, Cycle, Sleep 60]"
proof -
  have off: "\<not> tracking_active default_tracker" by (simp add: default_tracker_def)
  have on: "flag_at malformed_env (length [Cycle, Sleep 60])"
    and held: "interval_at malformed_env (Suc (length [Cycle, Sleep 60])) = ''abc''"
    by (simp_all add: malformed_env_def)
  from malformed_interval_absorbed
    [OF py_int_abc, of default_tracker malformed_env "[Cycle, Sleep 60]"] off on held
  have "start_tracking (default_tracker\<lparr>interval_var := ''abc''\<rparr>)
       = (TrackingStarted, True, default_tracker\<lparr>interval_var := ''abc'', tracking_active := True\<rparr>)"
    and "tracking_loop malformed_env [Cycle, Sleep 60]
       = tracking_loop malformed_env [Cycle, Sleep 60, Cycle, Sleep 60]"
    by simp_all
  with py_int_abc py_int_separator off on show ?thesis by simp
qed

end
